theory Spec2Isabelle
  imports Main "HOL-Library.AList" "HOL-Library.Multiset"
begin

section \<open>JavaScript values used by the sources\<close>

text \<open>
  Strings are modelled as HOL strings. Only single-character separators and
  patterns occur in the sources, so the string methods below take a character.
  An exception thrown by the code is a value of \<open>js_error\<close>; a function that may
  throw returns \<open>js_error + 'a\<close> with \<open>Inl\<close> for the thrown error.
\<close>

datatype js_error = Error string | TypeError string

fun message :: "js_error \<Rightarrow> string" where
  "message (Error m) = m"
| "message (TypeError m) = m"

text \<open>\<open>s.split(c)\<close>: the pieces of \<open>s\<close> between occurrences of \<open>c\<close>; never empty.\<close>

fun js_split :: "char \<Rightarrow> string \<Rightarrow> string list" where
  "js_split c [] = [[]]"
| "js_split c (x # xs) =
     (if x = c then [] # js_split c xs
      else (case js_split c xs of
              [] \<Rightarrow> [[x]]
            | w # ws \<Rightarrow> (x # w) # ws))"

text \<open>\<open>xs[i]\<close> on an array: \<open>undefined\<close> (here \<open>None\<close>) out of range.\<close>

definition at :: "'a list \<Rightarrow> nat \<Rightarrow> 'a option" where
  "at xs i = (if i < length xs then Some (xs ! i) else None)"

text \<open>\<open>s.indexOf(c)\<close>: the first position of \<open>c\<close>, or \<open>-1\<close>.\<close>

definition indexOf :: "char \<Rightarrow> string \<Rightarrow> int" where
  "indexOf c s = (if c \<in> set s then int (length (takeWhile (\<lambda>x. x \<noteq> c) s)) else - 1)"

text \<open>
  \<open>s.substring(a, b)\<close> and \<open>s.substring(a)\<close>: arguments are clamped to
  \<open>0 .. length s\<close> and swapped when \<open>a > b\<close>.
\<close>

definition clamp_index :: "string \<Rightarrow> int \<Rightarrow> nat" where
  "clamp_index s i = (if i < 0 then 0 else min (nat i) (length s))"

definition substring :: "string \<Rightarrow> int \<Rightarrow> int \<Rightarrow> string" where
  "substring s a b =
     (let i = clamp_index s a; j = clamp_index s b
      in take (max i j - min i j) (drop (min i j) s))"

definition substring_from :: "string \<Rightarrow> int \<Rightarrow> string" where
  "substring_from s a = drop (clamp_index s a) s"

text \<open>
  \<open>toLowerCase\<close> on the ASCII letters (the repository names of the hosting
  service are ASCII).  The receiver is explicit: \<open>None\<close> stands for a call
  whose \<open>this\<close> value is \<open>undefined\<close>, which throws a \<open>TypeError\<close>.
\<close>

definition toLowerCase_char :: "char \<Rightarrow> char" where
  "toLowerCase_char c =
     (case map_of (zip ''ABCDEFGHIJKLMNOPQRSTUVWXYZ'' ''abcdefghijklmnopqrstuvwxyz'') c of
        None \<Rightarrow> c
      | Some l \<Rightarrow> l)"

definition toLowerCase :: "string \<Rightarrow> string" where
  "toLowerCase s = map toLowerCase_char s"

fun toLowerCase_call :: "string option \<Rightarrow> js_error + string" where
  "toLowerCase_call None =
     Inl (TypeError ''String.prototype.toLowerCase called on null or undefined'')"
| "toLowerCase_call (Some s) = Inr (toLowerCase s)"

text \<open>\<open>x || d\<close> on an optional string: \<open>undefined\<close> and the empty string are falsy.\<close>

fun or_else :: "string option \<Rightarrow> string \<Rightarrow> string" where
  "or_else None d = d"
| "or_else (Some r) d = (if r = [] then d else r)"

fun or_undefined :: "string option \<Rightarrow> string option" where
  "or_undefined None = None"
| "or_undefined (Some r) = (if r = [] then None else Some r)"

section \<open>Tasks started together\<close>

text \<open>
  Where the sources start several tasks under \<open>Promise.all\<close>, the order in
  which the tasks finish is not fixed by the program.  A schedule gives it:
  with \<open>n\<close> tasks still running, the task at position \<open>pick n mod n\<close> of
  the running ones finishes next.  Every order of finishing is the order of
  some \<open>pick\<close> (lemma \<open>completion_order_any\<close>), and the theorems hold
  for every schedule.
\<close>

function completion_order :: "(nat \<Rightarrow> nat) \<Rightarrow> 'a list \<Rightarrow> 'a list" where
  "completion_order pick xs =
     (if xs = [] then []
      else (let i = pick (length xs) mod length xs
            in xs ! i # completion_order pick (take i xs @ drop (Suc i) xs)))"
  by pat_completeness auto
termination
proof (relation "measure (\<lambda>(pick, xs). length xs)", goal_cases)
  case 1
  show ?case by simp
next
  case (2 pick xs i)
  then have "i < length xs" by simp
  then show ?case by simp
qed

declare completion_order.simps [simp del]

text \<open>
  One order for each place where the workspace starts tasks together: the
  lookups of the wildcard owners in \<open>expandRepoPatterns\<close>, the
  single-repository lookups of \<open>_determineGitHubRepos\<close>, and the clone or
  update tasks of \<open>init\<close>.
\<close>

record schedule =
  lookups_done :: "nat \<Rightarrow> nat"
  answers_done :: "nat \<Rightarrow> nat"
  syncs_done :: "nat \<Rightarrow> nat"

definition in_order :: schedule where
  "in_order = \<lparr>lookups_done = (\<lambda>n. 0), answers_done = (\<lambda>n. 0), syncs_done = (\<lambda>n. 0)\<rparr>"

section \<open>Data model (github.ts)\<close>

record repo_id =
  owner :: string
  name :: string
  fullName :: string

record GitHubRepoReference = repo_id +
  ref :: "string option"

record GitHubRepoCached = repo_id +
  cloneUrl :: string
  defaultBranch :: string

record GitHubRepo = GitHubRepoCached +
  ref :: string

subsection \<open>fullNameToGithubRepoReference\<close>

definition not_in_form :: "string \<Rightarrow> js_error" where
  "not_in_form pattern =
     Error (''Repo '' @ [CHR 0x27] @ pattern @ [CHR 0x27] @
            '' is not in form user/repo or user/repo#ref'')"

definition fullNameToGithubRepoReference :: "string \<Rightarrow> js_error + GitHubRepoReference" where
  "fullNameToGithubRepoReference pattern =
     (let hashSplit = js_split CHR ''#'' pattern in
      case at hashSplit 0 of
        None \<Rightarrow> Inl (TypeError ''Cannot read property split of undefined'')
      | Some h0 \<Rightarrow>
          (let slashSplit = js_split CHR ''/'' h0 in
           if length slashSplit \<noteq> 2 \<or> length hashSplit > 2
           then Inl (not_in_form pattern)
           else (case (at slashSplit 0, at slashSplit 1) of
                   (Some o', Some n') \<Rightarrow>
                     Inr \<lparr>owner = o', name = n', fullName = h0,
                          GitHubRepoReference.ref = or_undefined (at hashSplit 1)\<rparr>
                 | _ \<Rightarrow> Inl (TypeError ''unreachable''))))"

subsection \<open>The hosting API client\<close>

text \<open>
  The REST client \<open>this._github\<close> is an external collaborator.  It is a
  parameter of the model: three request functions, each answering with the
  response or with the error the client throws.  Only the fields of a
  response that the code reads are kept.
\<close>

record api_repo =
  owner_login :: string
  repo_name :: string
  full_name :: string
  clone_url :: string
  default_branch :: string
  is_private :: bool

record api_response =
  meta_status :: "string option"
  data :: api_repo

record github_api =
  repos_get :: "string \<Rightarrow> string \<Rightarrow> js_error + api_response"
  repos_getForOrg :: "string \<Rightarrow> nat \<Rightarrow> nat \<Rightarrow> js_error + api_repo list"
  repos_getForUser :: "string \<Rightarrow> nat \<Rightarrow> nat \<Rightarrow> js_error + api_repo list"

datatype api_request =
  ReposGet string string
| GetForOrg string nat nat
| GetForUser string nat nat

datatype console_msg =
  Log string
| LogResponse api_response
| LogOwnerRepos string string "GitHubRepoCached list"

text \<open>
  The state of a \<open>GitHubConnection\<close>: its \<open>_cache\<close>, together with the two
  effects the claims observe, the requests sent to the client and the lines
  written with \<open>console.log\<close>, both in the order they happen.
\<close>

record connection =
  cache :: "string \<rightharpoonup> GitHubRepoCached"
  requests :: "api_request list"
  console :: "console_msg list"

definition resetCache :: "'a connection_scheme \<Rightarrow> 'a connection_scheme" where
  "resetCache s = s\<lparr>cache := Map.empty\<rparr>"

text \<open>\<open>/^301\b/\<close>: the status starts with 301 and no word character follows.\<close>

definition word_char :: "char \<Rightarrow> bool" where
  "word_char c \<longleftrightarrow>
     c \<in> set ''ABCDEFGHIJKLMNOPQRSTUVWXYZabcdefghijklmnopqrstuvwxyz0123456789_''"

definition isRedirect :: "api_response \<Rightarrow> bool" where
  "isRedirect response =
     (case meta_status response of
        None \<Rightarrow> False
      | Some status \<Rightarrow>
          take 3 status = ''301'' \<and>
          (case drop 3 status of [] \<Rightarrow> True | c # _ \<Rightarrow> \<not> word_char c))"

definition formatGitHubRepoFromApi :: "api_repo \<Rightarrow> GitHubRepoCached" where
  "formatGitHubRepoFromApi obj =
     \<lparr>owner = owner_login obj, name = repo_name obj, fullName = full_name obj,
      cloneUrl = clone_url obj, defaultBranch = default_branch obj\<rparr>"

text \<open>\<open>Object.assign({}, cached, {ref: r})\<close>: a new object, the cached one is not changed.\<close>

definition assign_ref :: "GitHubRepoCached \<Rightarrow> string \<Rightarrow> GitHubRepo" where
  "assign_ref cached r =
     \<lparr>owner = owner cached, name = name cached, fullName = fullName cached,
      cloneUrl = cloneUrl cached, defaultBranch = defaultBranch cached,
      GitHubRepo.ref = r\<rparr>"

subsection \<open>getRepoInfo\<close>

definition getRepoInfo ::
  "github_api \<Rightarrow> GitHubRepoReference \<Rightarrow> 'a connection_scheme
     \<Rightarrow> (js_error + GitHubRepo) \<times> 'a connection_scheme" where
  "getRepoInfo api repoReference s =
     (case cache s (fullName repoReference) of
        Some cachedRepo \<Rightarrow>
          (Inr (assign_ref cachedRepo
                  (or_else (GitHubRepoReference.ref repoReference) (defaultBranch cachedRepo))), s)
      | None \<Rightarrow>
          (case fullNameToGithubRepoReference (fullName repoReference) of
             Inl e \<Rightarrow> (Inl e, s)
           | Inr repoRef \<Rightarrow>
               (let s1 = s\<lparr>requests := requests s @ [ReposGet (owner repoRef) (name repoRef)]\<rparr> in
                case repos_get api (owner repoRef) (name repoRef) of
                  Inl e \<Rightarrow> (Inl e, s1)
                | Inr response \<Rightarrow>
                    if isRedirect response
                    then (Inl (Error (''Repo '' @ owner repoRef @ ''/'' @ name repoRef @
                                      '' could not be loaded.'')),
                          s1\<lparr>console := console s1 @
                             [Log ''Repo ${owner}/${repo} has moved permanently.'',
                              LogResponse response]\<rparr>)
                    else (let gitHubRepoCached = formatGitHubRepoFromApi (data response);
                              s2 = s1\<lparr>cache := (cache s1)(fullName repoReference \<mapsto> gitHubRepoCached)\<rparr>
                          in (Inr (assign_ref gitHubRepoCached
                                     (or_else (GitHubRepoReference.ref repoReference)
                                        (defaultBranch gitHubRepoCached))), s2)))))"

text \<open>
  The two halves of \<open>getRepoInfo\<close>, before and after its \<open>await\<close>: the first
  either settles the call (cache hit, or the parser throws) or sends the
  request; the second handles the answer.
\<close>

datatype started =
  Settled "js_error + GitHubRepo"
| Awaiting GitHubRepoReference

definition getRepoInfo_start ::
  "GitHubRepoReference \<Rightarrow> 'a connection_scheme \<Rightarrow> started \<times> 'a connection_scheme" where
  "getRepoInfo_start repoReference s =
     (case cache s (fullName repoReference) of
        Some cachedRepo \<Rightarrow>
          (Settled (Inr (assign_ref cachedRepo
                  (or_else (GitHubRepoReference.ref repoReference) (defaultBranch cachedRepo)))), s)
      | None \<Rightarrow>
          (case fullNameToGithubRepoReference (fullName repoReference) of
             Inl e \<Rightarrow> (Settled (Inl e), s)
           | Inr repoRef \<Rightarrow>
               (Awaiting repoRef,
                s\<lparr>requests := requests s @ [ReposGet (owner repoRef) (name repoRef)]\<rparr>)))"

definition getRepoInfo_resume ::
  "github_api \<Rightarrow> GitHubRepoReference \<Rightarrow> GitHubRepoReference \<Rightarrow> 'a connection_scheme
     \<Rightarrow> (js_error + GitHubRepo) \<times> 'a connection_scheme" where
  "getRepoInfo_resume api repoReference repoRef s1 =
     (case repos_get api (owner repoRef) (name repoRef) of
        Inl e \<Rightarrow> (Inl e, s1)
      | Inr response \<Rightarrow>
          if isRedirect response
          then (Inl (Error (''Repo '' @ owner repoRef @ ''/'' @ name repoRef @
                            '' could not be loaded.'')),
                s1\<lparr>console := console s1 @
                   [Log ''Repo ${owner}/${repo} has moved permanently.'',
                    LogResponse response]\<rparr>)
          else (let gitHubRepoCached = formatGitHubRepoFromApi (data response);
                    s2 = s1\<lparr>cache := (cache s1)(fullName repoReference \<mapsto> gitHubRepoCached)\<rparr>
                in (Inr (assign_ref gitHubRepoCached
                           (or_else (GitHubRepoReference.ref repoReference)
                              (defaultBranch gitHubRepoCached))), s2)))"

subsection \<open>getOwnerRepos\<close>

definition pageSize :: nat where
  "pageSize = 50"

definition public_repos :: "api_repo list \<Rightarrow> GitHubRepoCached list" where
  "public_repos response_data =
     map formatGitHubRepoFromApi (filter (\<lambda>obj. \<not> is_private obj) response_data)"

text \<open>
  The two \<open>if\<close> blocks at the head of the loop body: the organization
  listing while \<open>isOrg\<close> holds, the user listing once it does not.  The result
  is the new \<open>pageRepos\<close> and \<open>isOrg\<close>.
\<close>

definition fetch_page ::
  "github_api \<Rightarrow> string \<Rightarrow> nat \<Rightarrow> bool \<Rightarrow> GitHubRepoCached list \<Rightarrow> 'a connection_scheme
     \<Rightarrow> GitHubRepoCached list \<times> bool \<times> 'a connection_scheme" where
  "fetch_page api owner' page isOrg pageRepos s =
     (let (pageRepos1, isOrg1, s1) =
            (if isOrg
             then (let s' = s\<lparr>requests := requests s @ [GetForOrg owner' pageSize page]\<rparr> in
                   case repos_getForOrg api owner' pageSize page of
                     Inr response_data \<Rightarrow> (public_repos response_data, True, s')
                   | Inl e \<Rightarrow> (pageRepos, False, s'))
             else (pageRepos, False, s))
      in if \<not> isOrg1
         then (let s' = s1\<lparr>requests := requests s1 @ [GetForUser owner' pageSize page]\<rparr> in
               case repos_getForUser api owner' pageSize page of
                 Inr response_data \<Rightarrow> (public_repos response_data, isOrg1, s')
               | Inl e \<Rightarrow> ([], isOrg1, s'))
         else (pageRepos1, isOrg1, s1))"

definition cache_all :: "GitHubRepoCached list \<Rightarrow> 'a connection_scheme \<Rightarrow> 'a connection_scheme" where
  "cache_all pageRepos s =
     s\<lparr>cache := fold (\<lambda>repo c. c(fullName repo \<mapsto> repo)) pageRepos (cache s)\<rparr>"

text \<open>
  The \<open>do ... while (pageRepos.length > 0)\<close> loop.  Nothing bounds the number
  of pages, so the loop is a partial function: \<open>None\<close> is a listing that
  never ends.
\<close>

partial_function (option) getOwnerRepos_loop ::
  "github_api \<Rightarrow> string \<Rightarrow> nat \<Rightarrow> bool \<Rightarrow> GitHubRepoCached list \<Rightarrow> GitHubRepoCached list
     \<Rightarrow> 'a connection_scheme \<Rightarrow> (GitHubRepoCached list \<times> 'a connection_scheme) option" where
  "getOwnerRepos_loop api owner' page isOrg allRepos pageRepos s =
     (case fetch_page api owner' page isOrg pageRepos s of
        (pageRepos', isOrg', s1) \<Rightarrow>
          if length pageRepos' > 0
          then getOwnerRepos_loop api owner' (page + 1) isOrg' (allRepos @ pageRepos') pageRepos'
                 (cache_all pageRepos' s1)
          else Some (allRepos @ pageRepos', cache_all pageRepos' s1))"

definition getOwnerRepos ::
  "github_api \<Rightarrow> string \<Rightarrow> 'a connection_scheme
     \<Rightarrow> (GitHubRepoCached list \<times> 'a connection_scheme) option" where
  "getOwnerRepos api owner' s = getOwnerRepos_loop api owner' 0 True [] [] s"

subsection \<open>expandRepoPatterns\<close>

text \<open>
  \<open>ownersToLookup\<close> is a \<open>Set\<close> of strings: adding a string already present
  changes nothing.  \<open>allGitHubRepos\<close> is a \<open>Set\<close> of objects, which compares
  its elements by identity; every object added to it is freshly built by
  \<open>fullNameToGithubRepoReference\<close> or by an object literal, so it is never
  found present and every \<open>add\<close> appends.  Both are lists in insertion order,
  the order in which the spread and \<open>Array.from\<close> read them.
\<close>

definition add_string :: "string list \<Rightarrow> string \<Rightarrow> string list" where
  "add_string xs x = (if x \<in> set xs then xs else xs @ [x])"

definition add_fresh_object :: "'b list \<Rightarrow> 'b \<Rightarrow> 'b list" where
  "add_fresh_object xs x = xs @ [x]"

definition ignoring_warning :: "string \<Rightarrow> console_msg" where
  "ignoring_warning repoPattern =
     Log (''WARNING: repo '' @ [CHR 0x22] @ repoPattern @ [CHR 0x22] @
          '' must be of the GitHub format '' @ [CHR 0x22] @ ''owner/repo'' @ [CHR 0x22] @
          ''. Ignoring...'')"

text \<open>The \<open>for ... of repoPatterns\<close> loop; a throw of the parser ends it.\<close>

fun scan_patterns ::
  "string list \<Rightarrow> GitHubRepoReference list \<Rightarrow> string list \<Rightarrow> 'a connection_scheme
     \<Rightarrow> (js_error + GitHubRepoReference list \<times> string list) \<times> 'a connection_scheme" where
  "scan_patterns [] allGitHubRepos ownersToLookup s = (Inr (allGitHubRepos, ownersToLookup), s)"
| "scan_patterns (repoPattern # rest) allGitHubRepos ownersToLookup s =
     (if CHR ''/'' \<notin> set repoPattern
      then scan_patterns rest allGitHubRepos ownersToLookup
             (s\<lparr>console := console s @ [ignoring_warning repoPattern]\<rparr>)
      else if CHR ''*'' \<in> set repoPattern
      then scan_patterns rest allGitHubRepos (add_string ownersToLookup repoPattern) s
      else (case fullNameToGithubRepoReference repoPattern of
              Inl e \<Rightarrow> (Inl e, s)
            | Inr r \<Rightarrow> scan_patterns rest (add_fresh_object allGitHubRepos r) ownersToLookup s))"

definition reference_of_cached :: "string option \<Rightarrow> GitHubRepoCached \<Rightarrow> GitHubRepoReference" where
  "reference_of_cached ref' cachedRepo =
     \<lparr>owner = owner cachedRepo, name = name cachedRepo, fullName = fullName cachedRepo,
      GitHubRepoReference.ref = Some (or_else ref' (defaultBranch cachedRepo))\<rparr>"

text \<open>
  The owner lookups started by \<open>Promise.all\<close>, given in the order in which
  they finish.  A lookup logs and adds its references in one piece when its
  listing is complete, so the references of one owner stay together and the
  owners follow each other in the order of finishing.  The requests and
  cache writes of different lookups are interleaved in the source; the model
  records them lookup by lookup.
\<close>

fun lookup_owners ::
  "github_api \<Rightarrow> string list \<Rightarrow> GitHubRepoReference list \<Rightarrow> 'a connection_scheme
     \<Rightarrow> (GitHubRepoReference list \<times> 'a connection_scheme) option" where
  "lookup_owners api [] allGitHubRepos s = Some (allGitHubRepos, s)"
| "lookup_owners api (pattern # rest) allGitHubRepos s =
     (let owner' = toLowerCase (substring pattern 0 (indexOf CHR ''/'' pattern));
          ref' = (if CHR ''#'' \<in> set pattern
                  then Some (substring_from pattern (indexOf CHR ''#'' pattern + 1))
                  else None)
      in case getOwnerRepos api owner' s of
           None \<Rightarrow> None
         | Some (ownerCachedRepos, s1) \<Rightarrow>
             lookup_owners api rest
               (fold (\<lambda>cachedRepo acc. add_fresh_object acc (reference_of_cached ref' cachedRepo))
                  ownerCachedRepos allGitHubRepos)
               (s1\<lparr>console := console s1 @ [LogOwnerRepos ''AHHH'' owner' ownerCachedRepos]\<rparr>))"

definition expandRepoPatterns ::
  "github_api \<Rightarrow> schedule \<Rightarrow> string list \<Rightarrow> 'a connection_scheme
     \<Rightarrow> ((js_error + GitHubRepoReference list) \<times> 'a connection_scheme) option" where
  "expandRepoPatterns api sched repoPatterns s =
     (case scan_patterns repoPatterns [] [] s of
        (Inl e, s1) \<Rightarrow> Some (Inl e, s1)
      | (Inr (allGitHubRepos, ownersToLookup), s1) \<Rightarrow>
          if length ownersToLookup = 0
          then Some (Inr allGitHubRepos, s1)
          else (case lookup_owners api
                       (completion_order (lookups_done sched) ownersToLookup)
                       allGitHubRepos s1 of
                  None \<Rightarrow> None
                | Some (refs, s2) \<Rightarrow> Some (Inr refs, s2)))"

section \<open>The workspace (workspace.ts)\<close>

text \<open>
  Names of private members are written without their leading underscore.
  The version-control session \<open>GitRepo\<close>, the helpers \<open>checkCommand\<close> and
  \<open>mergedBowerConfigsFromRepos\<close>, the file system, \<open>path\<close> and
  \<open>JSON.stringify\<close> are collaborators of the workspace: they are parameters
  of the model, acting on a state \<open>'w\<close> of the local machine.  A collaborator
  that only inspects the machine is a function of \<open>'w\<close>; one that changes it
  returns the new state with its result or the error it throws.
\<close>

record GitRepo =
  cwd :: string

record WorkspaceRepo =
  dir :: string
  git :: GitRepo
  github :: GitHubRepo

record GitHubRepoError =
  error :: js_error
  repoReference :: GitHubRepoReference

text \<open>An option that is absent is \<open>False\<close>.\<close>

record WorkspaceInitOptions =
  fresh :: bool
  verbose :: bool

record bowerConfig =
  dependencies :: "(string \<times> string) list"
  other_fields :: string

record 'w local_tools =
  checkCommand :: "string \<Rightarrow> 'w \<Rightarrow> js_error + bool"
  existsSync :: "string \<Rightarrow> 'w \<Rightarrow> bool"
  rimraf :: "string \<Rightarrow> 'w \<Rightarrow> (js_error + unit) \<times> 'w"
  mkdirSync :: "string \<Rightarrow> 'w \<Rightarrow> (js_error + unit) \<times> 'w"
  writeFileSync :: "string \<Rightarrow> string \<Rightarrow> 'w \<Rightarrow> (js_error + unit) \<times> 'w"
  exec :: "string \<Rightarrow> string \<Rightarrow> string list \<Rightarrow> 'w \<Rightarrow> (js_error + string \<times> string) \<times> 'w"
  path_resolve :: "string \<Rightarrow> string \<Rightarrow> string"
  path_join :: "string \<Rightarrow> string \<Rightarrow> string"
  isGit :: "GitRepo \<Rightarrow> 'w \<Rightarrow> bool"
  git_fetch :: "GitRepo \<Rightarrow> 'w \<Rightarrow> (js_error + string) \<times> 'w"
  destroyAllUncommittedChangesAndFiles :: "GitRepo \<Rightarrow> 'w \<Rightarrow> (js_error + unit) \<times> 'w"
  git_clone :: "GitRepo \<Rightarrow> string \<Rightarrow> 'w \<Rightarrow> (js_error + string) \<times> 'w"
  git_checkout :: "GitRepo \<Rightarrow> string \<Rightarrow> 'w \<Rightarrow> (js_error + string) \<times> 'w"
  getHeadSha :: "GitRepo \<Rightarrow> 'w \<Rightarrow> (js_error + string) \<times> 'w"
  mergedBowerConfigsFromRepos :: "WorkspaceRepo list \<Rightarrow> 'w \<Rightarrow> js_error + bowerConfig"
  stringify :: "bowerConfig \<Rightarrow> string"

text \<open>
  A \<open>Workspace\<close> object: its directory, the state of its connection
  \<open>_github\<close> (the fields of \<open>connection\<close>), its \<open>_initializedRepos\<close>
  (\<open>None\<close> for \<open>undefined\<close>), and the local machine it works on.
\<close>

record 'w Workspace = connection +
  dir :: string
  initializedRepos :: "WorkspaceRepo list option"
  world :: 'w

definition new_connection :: connection where
  "new_connection = \<lparr>cache = Map.empty, requests = [], console = []\<rparr>"

definition new_Workspace :: "string \<Rightarrow> 'w \<Rightarrow> 'w Workspace" where
  "new_Workspace options_dir w =
     \<lparr>cache = Map.empty, requests = [], console = [],
      dir = options_dir, initializedRepos = None, world = w\<rparr>"

subsection \<open>Sequencing\<close>

text \<open>
  A step of an \<open>async\<close> function is a function from the state to a result and
  the new state; \<open>await\<close> of a rejected promise ends the function with the
  error.
\<close>

definition and_then ::
  "('s \<Rightarrow> (js_error + 'a) \<times> 's) \<Rightarrow> ('a \<Rightarrow> 's \<Rightarrow> (js_error + 'b) \<times> 's)
     \<Rightarrow> 's \<Rightarrow> (js_error + 'b) \<times> 's" where
  "and_then m f s = (case m s of (Inl e, s') \<Rightarrow> (Inl e, s') | (Inr x, s') \<Rightarrow> f x s')"

definition on_world ::
  "('w \<Rightarrow> (js_error + 'a) \<times> 'w) \<Rightarrow> 'w Workspace \<Rightarrow> (js_error + 'a) \<times> 'w Workspace" where
  "on_world m s = (case m (world s) of (r, w') \<Rightarrow> (r, s\<lparr>world := w'\<rparr>))"

definition log_when :: "bool \<Rightarrow> string \<Rightarrow> 'a connection_scheme \<Rightarrow> (js_error + unit) \<times> 'a connection_scheme" where
  "log_when b line s = (Inr (), if b then s\<lparr>console := console s @ [Log line]\<rparr> else s)"

definition skip :: "'s \<Rightarrow> (js_error + unit) \<times> 's" where
  "skip s = (Inr (), s)"

text \<open>A \<open>for ... of\<close> loop whose body awaits: it stops at the first error.\<close>

fun for_each :: "('a \<Rightarrow> 's \<Rightarrow> (js_error + unit) \<times> 's) \<Rightarrow> 'a list \<Rightarrow> 's \<Rightarrow> (js_error + unit) \<times> 's" where
  "for_each body [] s = (Inr (), s)"
| "for_each body (x # xs) s =
     (case body x s of (Inl e, s') \<Rightarrow> (Inl e, s') | (Inr u, s') \<Rightarrow> for_each body xs s')"

text \<open>
  \<open>Promise.all\<close> over tasks that may reject: every task is started and a
  rejection does not stop the others; the result is the first rejection.
  The tasks are given in the order in which they finish.  The model runs each
  task in one piece and returns when all have finished; in the source the
  steps of the tasks are interleaved, and the caller sees the rejection while
  the other tasks are still running.
\<close>

fun promise_all :: "('a \<Rightarrow> 's \<Rightarrow> (js_error + unit) \<times> 's) \<Rightarrow> 'a list \<Rightarrow> 's \<Rightarrow> (js_error + unit) \<times> 's" where
  "promise_all task [] s = (Inr (), s)"
| "promise_all task (x # xs) s =
     (case task x s of
        (r, s1) \<Rightarrow>
          (case promise_all task xs s1 of
             (rs, s2) \<Rightarrow> ((case r of Inl e \<Rightarrow> Inl e | Inr u \<Rightarrow> rs), s2)))"

text \<open>\<open>xs.map(f)\<close> for a callback that may throw: the first throw ends the map.\<close>

fun map_throwing :: "('a \<Rightarrow> js_error + 'b) \<Rightarrow> 'a list \<Rightarrow> js_error + 'b list" where
  "map_throwing f [] = Inr []"
| "map_throwing f (x # xs) =
     (case f x of
        Inl e \<Rightarrow> Inl e
      | Inr y \<Rightarrow> (case map_throwing f xs of Inl e \<Rightarrow> Inl e | Inr ys \<Rightarrow> Inr (y # ys)))"

subsection \<open>determineGitHubRepos\<close>

text \<open>
  The \<open>Promise.all\<close> over \<open>repoRefs\<close>: each task calls \<open>getRepoInfo\<close> inside
  \<open>try\<close>/\<open>catch\<close>, so it never rejects; a failure becomes an error record.
  All tasks are started first, in list order: each reads the cache and, on a
  miss, sends its request before any answer has arrived.  The answers are
  then handled in the order in which they arrive.  The value of a task does
  not depend on the state in which its answer is handled (lemma
  \<open>getRepoInfo_resume_value\<close>); the results are taken in list order, as
  \<open>Promise.all\<close> returns them, and the effects in the order of arrival.
\<close>

fun start_all ::
  "GitHubRepoReference list \<Rightarrow> 'a connection_scheme
     \<Rightarrow> (GitHubRepoReference \<times> started) list \<times> 'a connection_scheme" where
  "start_all [] s = ([], s)"
| "start_all (repoRef # rest) s =
     (case getRepoInfo_start repoRef s of
        (st, s1) \<Rightarrow>
          (case start_all rest s1 of
             (tasks, s2) \<Rightarrow> ((repoRef, st) # tasks, s2)))"

definition task_value ::
  "github_api \<Rightarrow> 'a connection_scheme \<Rightarrow> GitHubRepoReference \<times> started
     \<Rightarrow> GitHubRepoError + GitHubRepo" where
  "task_value api s task =
     (case task of
        (repoRef, st) \<Rightarrow>
          (case (case st of
                   Settled r \<Rightarrow> r
                 | Awaiting parsed \<Rightarrow> fst (getRepoInfo_resume api repoRef parsed s)) of
             Inl err \<Rightarrow> Inl \<lparr>error = err, repoReference = repoRef\<rparr>
           | Inr repo \<Rightarrow> Inr repo))"

definition task_effect ::
  "github_api \<Rightarrow> GitHubRepoReference \<times> started \<Rightarrow> 'a connection_scheme
     \<Rightarrow> 'a connection_scheme" where
  "task_effect api task s =
     (case task of
        (repoRef, st) \<Rightarrow>
          (case st of
             Settled r \<Rightarrow> s
           | Awaiting parsed \<Rightarrow> snd (getRepoInfo_resume api repoRef parsed s)))"

definition resolve_all ::
  "github_api \<Rightarrow> schedule \<Rightarrow> GitHubRepoReference list \<Rightarrow> 'a connection_scheme
     \<Rightarrow> (GitHubRepoError + GitHubRepo) list \<times> 'a connection_scheme" where
  "resolve_all api sched repoRefs s =
     (case start_all repoRefs s of
        (tasks, s1) \<Rightarrow>
          (map (task_value api s1) tasks,
           fold (task_effect api) (completion_order (answers_done sched) tasks) s1))"

definition not_found_line :: "GitHubRepoError \<Rightarrow> console_msg" where
  "not_found_line repoResponse =
     Log (''Repo not found: '' @ fullName (repoReference repoResponse) @
          '' ('' @ message (error repoResponse) @ '')'')"

text \<open>The final \<open>filter\<close>: an error record is reported and dropped.\<close>

fun report_and_filter ::
  "(GitHubRepoError + GitHubRepo) list \<Rightarrow> 'a connection_scheme
     \<Rightarrow> GitHubRepo list \<times> 'a connection_scheme" where
  "report_and_filter [] s = ([], s)"
| "report_and_filter (Inl repoResponse # rest) s =
     report_and_filter rest (s\<lparr>console := console s @ [not_found_line repoResponse]\<rparr>)"
| "report_and_filter (Inr repo # rest) s =
     (case report_and_filter rest s of (repos, s') \<Rightarrow> (repo # repos, s'))"

text \<open>
  \<open>excludes.map(String.prototype.toLowerCase)\<close>: \<open>map\<close> calls its callback
  with the element as argument and with \<open>this\<close> undefined; \<open>toLowerCase\<close>
  lower-cases its \<open>this\<close> value and ignores its arguments.  The parameter
  \<open>excludes\<close> is \<open>None\<close> when the caller passes \<open>undefined\<close>, and then
  defaults to the empty list.
\<close>

definition determineGitHubRepos ::
  "github_api \<Rightarrow> schedule \<Rightarrow> string list \<Rightarrow> string list option \<Rightarrow> 'a connection_scheme
     \<Rightarrow> ((js_error + GitHubRepo list) \<times> 'a connection_scheme) option" where
  "determineGitHubRepos api sched repoPatterns excludes_arg s =
     (case map_throwing (\<lambda>element. toLowerCase_call None)
             (case excludes_arg of None \<Rightarrow> [] | Some given \<Rightarrow> given) of
        Inl e \<Rightarrow> Some (Inl e, s)
      | Inr excludes \<Rightarrow>
          (case expandRepoPatterns api sched repoPatterns s of
             None \<Rightarrow> None
           | Some (Inl e, s1) \<Rightarrow> Some (Inl e, s1)
           | Some (Inr expanded, s1) \<Rightarrow>
               (let repoRefs = filter (\<lambda>repoRef. toLowerCase (fullName repoRef) \<notin> set excludes)
                                 expanded
                in case resolve_all api sched repoRefs s1 of
                     (githubReposMaybe, s2) \<Rightarrow>
                       (case report_and_filter githubReposMaybe s2 of
                          (githubRepos, s3) \<Rightarrow> Some (Inr githubRepos, s3)))))"

subsection \<open>The steps of init\<close>

definition openWorkspaceRepo :: "'w local_tools \<Rightarrow> string \<Rightarrow> GitHubRepo \<Rightarrow> WorkspaceRepo" where
  "openWorkspaceRepo tools this_dir repo =
     (let sessionDir = path_resolve tools this_dir (name repo)
      in \<lparr>WorkspaceRepo.dir = sessionDir, git = \<lparr>cwd = sessionDir\<rparr>, github = repo\<rparr>)"

definition prepareWorkspaceFolders ::
  "'w local_tools \<Rightarrow> WorkspaceRepo list \<Rightarrow> WorkspaceInitOptions \<Rightarrow> 'w Workspace
     \<Rightarrow> (js_error + unit) \<times> 'w Workspace" where
  "prepareWorkspaceFolders tools repos options =
     and_then
       (\<lambda>s. if fresh options
            then and_then
                   (log_when (verbose options)
                      (''Removing workspace folder '' @ Workspace.dir s @ ''...''))
                   (\<lambda>u. on_world (rimraf tools (Workspace.dir s))) s
            else skip s)
       (\<lambda>u. and_then
          (\<lambda>s. if \<not> existsSync tools (Workspace.dir s) (world s)
               then and_then
                      (log_when (verbose options)
                         (''Creating workspace folder '' @ Workspace.dir s @ ''...''))
                      (\<lambda>u. on_world (mkdirSync tools (Workspace.dir s))) s
               else skip s)
          (\<lambda>u. for_each
             (\<lambda>repo s.
                if existsSync tools (WorkspaceRepo.dir repo) (world s) \<and>
                   \<not> isGit tools (git repo) (world s)
                then and_then
                       (log_when (verbose options)
                          (''Removing existing folder: '' @ WorkspaceRepo.dir repo @ ''...''))
                       (\<lambda>u. on_world (rimraf tools (WorkspaceRepo.dir repo))) s
                else skip s)
             repos))"

definition cloneOrUpdateWorkspaceRepo ::
  "'w local_tools \<Rightarrow> WorkspaceRepo \<Rightarrow> 'w \<Rightarrow> (js_error + unit) \<times> 'w" where
  "cloneOrUpdateWorkspaceRepo tools repo =
     and_then
       (\<lambda>w. if isGit tools (git repo) w
            then and_then (git_fetch tools (git repo))
                   (\<lambda>out. destroyAllUncommittedChangesAndFiles tools (git repo)) w
            else and_then (git_clone tools (git repo) (cloneUrl (github repo)))
                   (\<lambda>out. skip) w)
       (\<lambda>u. and_then
          (git_checkout tools (git repo)
             (or_else (Some (GitHubRepo.ref (github repo))) (defaultBranch (github repo))))
          (\<lambda>out. skip))"

definition cloneOrUpdateWorkspaceRepos ::
  "'w local_tools \<Rightarrow> schedule \<Rightarrow> WorkspaceRepo list \<Rightarrow> 'w Workspace
     \<Rightarrow> (js_error + unit) \<times> 'w Workspace" where
  "cloneOrUpdateWorkspaceRepos tools sched repos =
     on_world (promise_all (cloneOrUpdateWorkspaceRepo tools)
                 (completion_order (syncs_done sched) repos))"

text \<open>The loop that points each workspace repository at its own checkout.\<close>

fun pin_dependencies ::
  "'w local_tools \<Rightarrow> WorkspaceRepo list \<Rightarrow> bowerConfig \<Rightarrow> 'w \<Rightarrow> (js_error + bowerConfig) \<times> 'w" where
  "pin_dependencies tools [] config w = (Inr config, w)"
| "pin_dependencies tools (repo # rest) config w =
     (case getHeadSha tools (git repo) w of
        (Inl e, w1) \<Rightarrow> (Inl e, w1)
      | (Inr sha, w1) \<Rightarrow>
          pin_dependencies tools rest
            (config\<lparr>dependencies :=
               AList.update (name (github repo)) (''./'' @ name (github repo) @ ''#'' @ sha)
                 (dependencies config)\<rparr>) w1)"

definition configureBowerWorkspace ::
  "'w local_tools \<Rightarrow> WorkspaceRepo list \<Rightarrow> 'w Workspace \<Rightarrow> (js_error + unit) \<times> 'w Workspace" where
  "configureBowerWorkspace tools repos s =
     on_world
       (and_then
          (writeFileSync tools (path_join tools (Workspace.dir s) ''.bowerrc'')
             (''{'' @ [CHR 0x22] @ ''directory'' @ [CHR 0x22] @ '': '' @
              [CHR 0x22] @ ''.'' @ [CHR 0x22] @ ''}''))
          (\<lambda>u. and_then (\<lambda>w. (mergedBowerConfigsFromRepos tools repos w, w))
             (\<lambda>bowerConfig. and_then (pin_dependencies tools repos bowerConfig)
                (\<lambda>pinned. writeFileSync tools (path_join tools (Workspace.dir s) ''bower.json'')
                             (stringify tools pinned))))) s"

definition installWorkspaceDependencies ::
  "'w local_tools \<Rightarrow> 'w Workspace \<Rightarrow> (js_error + unit) \<times> 'w Workspace" where
  "installWorkspaceDependencies tools s =
     on_world (and_then (exec tools (Workspace.dir s) ''bower'' [''install'', ''-F''])
                 (\<lambda>out. skip)) s"

definition already_initialized :: js_error where
  "already_initialized = Error ''Workspace has already been initialized.''"

definition command_not_found :: "string \<Rightarrow> js_error" where
  "command_not_found tool =
     Error (''polymer-workspace: global '' @ [CHR 0x22] @ tool @ [CHR 0x22] @
            '' command not found. Install '' @ tool @ '' on your machine and then retry.'')"

text \<open>An array is truthy, also the empty one: only \<open>undefined\<close> passes the first test.\<close>

definition initValidate :: "'w local_tools \<Rightarrow> 'w Workspace \<Rightarrow> (js_error + unit) \<times> 'w Workspace" where
  "initValidate tools s =
     (if initializedRepos s \<noteq> None then (Inl already_initialized, s)
      else (case checkCommand tools ''git'' (world s) of
              Inl e \<Rightarrow> (Inl e, s)
            | Inr found_git \<Rightarrow>
                if \<not> found_git then (Inl (command_not_found ''git''), s)
                else (case checkCommand tools ''bower'' (world s) of
                        Inl e \<Rightarrow> (Inl e, s)
                      | Inr found_bower \<Rightarrow>
                          if \<not> found_bower then (Inl (command_not_found ''bower''), s)
                          else (Inr (), s))))"

subsection \<open>init and run\<close>

definition init ::
  "github_api \<Rightarrow> 'w local_tools \<Rightarrow> schedule \<Rightarrow> string list \<Rightarrow> string list option
     \<Rightarrow> WorkspaceInitOptions \<Rightarrow> 'w Workspace
     \<Rightarrow> ((js_error + WorkspaceRepo list) \<times> 'w Workspace) option" where
  "init api tools sched patterns_include patterns_exclude options s =
     (case initValidate tools s of
        (Inl e, s1) \<Rightarrow> Some (Inl e, s1)
      | (Inr u, s1) \<Rightarrow>
          (case determineGitHubRepos api sched patterns_include patterns_exclude s1 of
             None \<Rightarrow> None
           | Some (Inl e, s2) \<Rightarrow> Some (Inl e, s2)
           | Some (Inr githubRepos, s2) \<Rightarrow>
               (let workspaceRepos = map (openWorkspaceRepo tools (Workspace.dir s2)) githubRepos
                in Some
                     (and_then (prepareWorkspaceFolders tools workspaceRepos options)
                        (\<lambda>u. and_then (cloneOrUpdateWorkspaceRepos tools sched workspaceRepos)
                           (\<lambda>u. and_then (configureBowerWorkspace tools workspaceRepos)
                              (\<lambda>u. and_then (installWorkspaceDependencies tools)
                                 (\<lambda>u s'. (Inr workspaceRepos,
                                          s'\<lparr>initializedRepos := Some workspaceRepos\<rparr>)))))
                        s2))))"

text \<open>
  The function given to \<open>run\<close> works on the local machine and settles: it
  returns, or throws the error of \<open>Inl\<close>.  \<open>failRuns\<close> is a \<open>Map\<close> keyed by
  the repository objects; the objects of \<open>_initializedRepos\<close> are distinct,
  so no entry replaces another, and the map is the list of its entries in
  insertion order.
\<close>

fun run_loop ::
  "(WorkspaceRepo \<Rightarrow> 'w \<Rightarrow> (js_error + unit) \<times> 'w) \<Rightarrow> WorkspaceRepo list
     \<Rightarrow> WorkspaceRepo list \<Rightarrow> (WorkspaceRepo \<times> js_error) list \<Rightarrow> 'w
     \<Rightarrow> (WorkspaceRepo list \<times> (WorkspaceRepo \<times> js_error) list) \<times> 'w" where
  "run_loop fn [] successRuns failRuns w = ((successRuns, failRuns), w)"
| "run_loop fn (workspaceRepo # rest) successRuns failRuns w =
     (case fn workspaceRepo w of
        (Inr u, w1) \<Rightarrow> run_loop fn rest (successRuns @ [workspaceRepo]) failRuns w1
      | (Inl err, w1) \<Rightarrow> run_loop fn rest successRuns (failRuns @ [(workspaceRepo, err)]) w1)"

definition not_initialized :: js_error where
  "not_initialized = Error ''Workspace has not been initialized, run init() first.''"

definition run ::
  "(WorkspaceRepo \<Rightarrow> 'w \<Rightarrow> (js_error + unit) \<times> 'w) \<Rightarrow> 'w Workspace
     \<Rightarrow> (js_error + WorkspaceRepo list \<times> (WorkspaceRepo \<times> js_error) list) \<times> 'w Workspace" where
  "run fn s =
     (case initializedRepos s of
        None \<Rightarrow> (Inl not_initialized, s)
      | Some repos \<Rightarrow>
          (case run_loop fn repos [] [] (world s) of
             (result, w') \<Rightarrow> (Inr result, s\<lparr>world := w'\<rparr>)))"

section \<open>Specification-level notions and example remotes\<close>








definition listing_ends :: "github_api \<Rightarrow> string \<Rightarrow> bool" where
  "listing_ends api owner' \<longleftrightarrow> getOwnerRepos api owner' new_connection \<noteq> None"




definition offline_api :: github_api where
  "offline_api =
     \<lparr>repos_get = (\<lambda>ow nm. Inl (Error ''Not Found'')),
      repos_getForOrg = (\<lambda>org per_page page. Inl (Error ''Not Found'')),
      repos_getForUser = (\<lambda>user per_page page. Inl (Error ''Not Found''))\<rparr>"

definition cache_repos :: "GitHubRepoCached list \<Rightarrow> (string \<rightharpoonup> GitHubRepoCached) \<Rightarrow> (string \<rightharpoonup> GitHubRepoCached)" where
  "cache_repos repos c = fold (\<lambda>repo c. c(fullName repo \<mapsto> repo)) repos c"

text \<open>The public repositories of pages \<open>i, ..., i + k - 1\<close> of an organization listing.\<close>

definition listed :: "(nat \<Rightarrow> api_repo list) \<Rightarrow> nat \<Rightarrow> nat \<Rightarrow> GitHubRepoCached list" where
  "listed pages i k = concat (map (\<lambda>p. public_repos (pages p)) [i..<i + k])"

definition repo_a :: api_repo where
  "repo_a = \<lparr>owner_login = ''org'', repo_name = ''a'', full_name = ''org/a'',
             clone_url = ''https://github.com/org/a.git'', default_branch = ''master'',
             is_private = False\<rparr>"

definition repo_b :: api_repo where
  "repo_b = \<lparr>owner_login = ''org'', repo_name = ''b'', full_name = ''org/b'',
             clone_url = ''https://github.com/org/b.git'', default_branch = ''main'',
             is_private = False\<rparr>"

definition repo_c :: api_repo where
  "repo_c = \<lparr>owner_login = ''org'', repo_name = ''c'', full_name = ''org/c'',
             clone_url = ''https://github.com/org/c.git'', default_branch = ''master'',
             is_private = True\<rparr>"

definition one_page :: "api_repo list \<Rightarrow> nat \<Rightarrow> api_repo list" where
  "one_page first_page p = (if p = 0 then first_page else [])"

definition two_pages :: "api_repo list \<Rightarrow> api_repo list \<Rightarrow> nat \<Rightarrow> api_repo list" where
  "two_pages first_page second_page p =
     (if p = 0 then first_page else if p = 1 then second_page else [])"

text \<open>
  A remote that knows the repositories \<open>known\<close> by owner and name and has one
  organization \<open>org\<close>, whose listing is given page by page.
\<close>

definition hosting :: "api_response list \<Rightarrow> (nat \<Rightarrow> api_repo list) \<Rightarrow> github_api" where
  "hosting known pages =
     \<lparr>repos_get = (\<lambda>ow nm.
         case find (\<lambda>response. owner_login (data response) = ow \<and>
                               repo_name (data response) = nm) known of
           Some response \<Rightarrow> Inr response
         | None \<Rightarrow> Inl (Error ''Not Found'')),
      repos_getForOrg = (\<lambda>org per_page page.
         if org = ''org'' then Inr (pages page) else Inl (Error ''Not Found'')),
      repos_getForUser = (\<lambda>user per_page page. Inl (Error ''Not Found''))\<rparr>"

text \<open>
  Resolving one reference on its own: \<open>getRepoInfo\<close> on a connection that
  holds the cache \<open>c\<close> and nothing else.  \<open>resolved\<close> and \<open>failures\<close> are the
  repositories and the error records this gives for a list of references, in
  the order of the list.
\<close>

definition resolve_alone ::
  "github_api \<Rightarrow> (string \<rightharpoonup> GitHubRepoCached) \<Rightarrow> GitHubRepoReference \<Rightarrow> js_error + GitHubRepo" where
  "resolve_alone api c repoRef =
     fst (getRepoInfo api repoRef \<lparr>cache = c, requests = [], console = []\<rparr>)"

definition outcome_of ::
  "github_api \<Rightarrow> (string \<rightharpoonup> GitHubRepoCached) \<Rightarrow> GitHubRepoReference \<Rightarrow> GitHubRepoError + GitHubRepo" where
  "outcome_of api c repoRef =
     (case resolve_alone api c repoRef of
        Inl e \<Rightarrow> Inl \<lparr>error = e, repoReference = repoRef\<rparr>
      | Inr repo \<Rightarrow> Inr repo)"

definition resolved ::
  "github_api \<Rightarrow> (string \<rightharpoonup> GitHubRepoCached) \<Rightarrow> GitHubRepoReference list \<Rightarrow> GitHubRepo list" where
  "resolved api c refs =
     concat (map (\<lambda>repoRef. case resolve_alone api c repoRef of
                               Inl e \<Rightarrow> []
                             | Inr repo \<Rightarrow> [repo]) refs)"

definition failures ::
  "github_api \<Rightarrow> (string \<rightharpoonup> GitHubRepoCached) \<Rightarrow> GitHubRepoReference list \<Rightarrow> GitHubRepoError list" where
  "failures api c refs =
     concat (map (\<lambda>repoRef. case resolve_alone api c repoRef of
                               Inl e \<Rightarrow> [\<lparr>error = e, repoReference = repoRef\<rparr>]
                             | Inr repo \<Rightarrow> []) refs)"

text \<open>
  A step of the workspace that leaves \<open>_initializedRepos\<close> as it is.
\<close>

definition keeps :: "('w Workspace \<Rightarrow> 'r \<times> 'w Workspace) \<Rightarrow> bool" where
  "keeps m \<longleftrightarrow> (\<forall>s. initializedRepos (snd (m s)) = initializedRepos s)"

text \<open>
  The calls of the function given to \<open>run\<close>: one per repository, in order,
  each with its outcome, the local machine being passed from call to call.
\<close>

fun invocations ::
  "(WorkspaceRepo \<Rightarrow> 'w \<Rightarrow> (js_error + unit) \<times> 'w) \<Rightarrow> WorkspaceRepo list \<Rightarrow> 'w
     \<Rightarrow> (WorkspaceRepo \<times> (js_error + unit)) list" where
  "invocations fn [] w = []"
| "invocations fn (repo # rest) w = (repo, fst (fn repo w)) # invocations fn rest (snd (fn repo w))"

text \<open>
  A small local machine for the examples: the state is the list of paths that
  exist; the listed commands are installed; the package installation
  succeeds when the registry is up.
\<close>

definition simple_tools :: "string list \<Rightarrow> bool \<Rightarrow> (string list) local_tools" where
  "simple_tools installed registry_up =
     \<lparr>checkCommand = (\<lambda>command w. Inr (command \<in> set installed)),
      existsSync = (\<lambda>path w. path \<in> set w),
      rimraf = (\<lambda>path w. (Inr (), filter (\<lambda>p. p \<noteq> path) w)),
      mkdirSync = (\<lambda>path w. (Inr (), w @ [path])),
      writeFileSync = (\<lambda>path content w. (Inr (), w @ [path])),
      exec = (\<lambda>dir' command args w.
         if registry_up then (Inr ([], []), w) else (Inl (Error ''Command failed: bower''), w)),
      path_resolve = (\<lambda>a b. a @ ''/'' @ b),
      path_join = (\<lambda>a b. a @ ''/'' @ b),
      isGit = (\<lambda>repo w. cwd repo @ ''/.git'' \<in> set w),
      git_fetch = (\<lambda>repo w. (Inr [], w)),
      destroyAllUncommittedChangesAndFiles = (\<lambda>repo w. (Inr (), w)),
      git_clone = (\<lambda>repo url w. (Inr [], w @ [cwd repo, cwd repo @ ''/.git''])),
      git_checkout = (\<lambda>repo branch w. (Inr [], w)),
      getHeadSha = (\<lambda>repo w. (Inr ''abc1234'', w)),
      mergedBowerConfigsFromRepos = (\<lambda>repos w. Inr \<lparr>dependencies = [], other_fields = []\<rparr>),
      stringify = (\<lambda>config. concat (map (\<lambda>(k, v). k @ '':'' @ v @ '';'') (dependencies config)))\<rparr>"

definition quiet :: WorkspaceInitOptions where
  "quiet = \<lparr>fresh = False, verbose = False\<rparr>"

definition found_a :: api_response where
  "found_a = \<lparr>meta_status = Some ''200 OK'', data = repo_a\<rparr>"

definition moved_b :: api_response where
  "moved_b = \<lparr>meta_status = Some ''301 Moved Permanently'', data = repo_b\<rparr>"

definition checkout_a :: WorkspaceRepo where
  "checkout_a =
     \<lparr>WorkspaceRepo.dir = ''ws/a'', git = \<lparr>cwd = ''ws/a''\<rparr>,
      github = assign_ref (formatGitHubRepoFromApi repo_a) ''master''\<rparr>"

definition checkout_b :: WorkspaceRepo where
  "checkout_b =
     \<lparr>WorkspaceRepo.dir = ''ws/b'', git = \<lparr>cwd = ''ws/b''\<rparr>,
      github = assign_ref (formatGitHubRepoFromApi repo_b) ''main''\<rparr>"

definition initialized_example :: "string list Workspace" where
  "initialized_example =
     \<lparr>cache = [''org/a'' \<mapsto> formatGitHubRepoFromApi repo_a],
      requests = [ReposGet ''org'' ''a''], console = [],
      dir = ''ws'', initializedRepos = Some [checkout_a],
      world = [''ws'', ''ws/a'', ''ws/a/.git'', ''ws/.bowerrc'', ''ws/bower.json'']\<rparr>"

definition failed_example :: "string list Workspace" where
  "failed_example =
     \<lparr>cache = [''org/a'' \<mapsto> formatGitHubRepoFromApi repo_a],
      requests = [ReposGet ''org'' ''a''], console = [],
      dir = ''ws'', initializedRepos = None,
      world = [''ws'', ''ws/a'', ''ws/a/.git'', ''ws/.bowerrc'', ''ws/bower.json'']\<rparr>"

definition failing_on_b :: "WorkspaceRepo \<Rightarrow> string list \<Rightarrow> (js_error + unit) \<times> string list" where
  "failing_on_b repo w =
     (if name (github repo) = ''b'' then Inl (Error ''tests failed'') else Inr (),
      w @ [name (github repo)])"

section \<open>Orders of finishing\<close>

lemma completion_order_Nil: "completion_order pick [] = []"
  by (simp add: completion_order.simps)

lemma completion_order_single: "completion_order pick [x] = [x]"
  by (simp add: completion_order.simps [of pick "[x]"] completion_order_Nil)

lemma completion_order_two:
  "completion_order pick [x, y] = [x, y] \<or> completion_order pick [x, y] = [y, x]"
proof -
  define i where "i = pick (length [x, y]) mod length [x, y]"
  have c: "completion_order pick [x, y] =
             [x, y] ! i # completion_order pick (take i [x, y] @ drop (Suc i) [x, y])"
    unfolding i_def by (subst completion_order.simps) (simp add: Let_def)
  have "i < length [x, y]" unfolding i_def by (rule mod_less_divisor) simp
  then have "i = 0 \<or> i = 1" by auto
  then show ?thesis
    unfolding c by (auto simp: completion_order_single)
qed

lemma completion_order_in_order: "completion_order (\<lambda>n. 0) xs = xs"
proof (induction xs)
  case Nil
  show ?case by (rule completion_order_Nil)
next
  case (Cons x xs)
  then show ?case
    by (simp add: completion_order.simps [of "\<lambda>n. 0" "x # xs"])
qed



lemma length_completion_order: "length (completion_order pick xs) = length xs"
proof (induction "length xs" arbitrary: xs)
  case 0
  then show ?case by (simp add: completion_order_Nil)
next
  case (Suc n)
  let ?i = "pick (length xs) mod length xs"
  from Suc.hyps(2) have ne: "xs \<noteq> []" by auto
  then have i: "?i < length xs" by simp
  have "length (take ?i xs @ drop (Suc ?i) xs) = n"
    using i Suc.hyps(2) by simp
  from Suc.hyps(1) [OF this [symmetric]] this
  show ?case
    using ne Suc.hyps(2)
    by (subst completion_order.simps) (simp add: Let_def)
qed

text \<open>
  The order of finishing is a rearrangement of the tasks, and every
  rearrangement is the order of finishing of some schedule.
\<close>

lemma mset_completion_order: "mset (completion_order pick xs) = mset xs"
proof (induction "length xs" arbitrary: xs)
  case 0
  then show ?case by (simp add: completion_order_Nil)
next
  case (Suc n)
  let ?i = "pick (length xs) mod length xs"
  let ?rest = "take ?i xs @ drop (Suc ?i) xs"
  from Suc.hyps(2) have ne: "xs \<noteq> []" by auto
  then have i: "?i < length xs" by simp
  have "length ?rest = n"
    using i Suc.hyps(2) by simp
  from Suc.hyps(1) [OF this [symmetric]]
  have IH: "mset (completion_order pick ?rest) = mset ?rest" .
  have "xs = take ?i xs @ xs ! ?i # drop (Suc ?i) xs"
    using i by (rule id_take_nth_drop)
  then have "mset xs = mset (take ?i xs @ xs ! ?i # drop (Suc ?i) xs)" by simp
  then have "mset xs = add_mset (xs ! ?i) (mset ?rest)" by simp
  then show ?case
    using ne IH by (subst completion_order.simps) (simp add: Let_def)
qed

lemma completion_order_cong:
  "(\<And>n. n \<le> length xs \<Longrightarrow> pick n = pick' n) \<Longrightarrow>
     completion_order pick xs = completion_order pick' xs"
proof (induction "length xs" arbitrary: xs rule: less_induct)
  case less
  show ?case
  proof (cases "xs = []")
    case True
    then show ?thesis by (simp add: completion_order_Nil)
  next
    case False
    let ?i = "pick (length xs) mod length xs"
    let ?rest = "take ?i xs @ drop (Suc ?i) xs"
    have i: "?i < length xs" using False by simp
    then have l: "length ?rest < length xs" by simp
    have p: "pick (length xs) = pick' (length xs)" using less.prems by simp
    have "completion_order pick ?rest = completion_order pick' ?rest"
      using l less.prems by (intro less.hyps) auto
    then show ?thesis
      using False p
      by (subst completion_order.simps, subst (2) completion_order.simps) (simp add: Let_def)
  qed
qed

lemma completion_order_any:
  "mset ys = mset xs \<Longrightarrow> \<exists>pick. completion_order pick xs = ys"
proof (induction ys arbitrary: xs)
  case Nil
  then show ?case by (simp add: completion_order_Nil)
next
  case (Cons y ys)
  then have "y \<in> set xs" by (metis list.set_intros(1) set_mset_mset)
  then obtain i where i: "i < length xs" and y: "xs ! i = y"
    by (auto simp: in_set_conv_nth)
  let ?rest = "take i xs @ drop (Suc i) xs"
  have xs: "xs = take i xs @ y # drop (Suc i) xs"
    using id_take_nth_drop [OF i] y by simp
  have "mset xs = add_mset y (mset ?rest)"
    by (subst xs) simp
  with Cons.prems have "mset ys = mset ?rest" by simp
  from Cons.IH [OF this] obtain pick where pick: "completion_order pick ?rest = ys"
    by auto
  let ?pick = "pick(length xs := i)"
  have "completion_order ?pick ?rest = completion_order pick ?rest"
    using i by (intro completion_order_cong) auto
  with pick have "completion_order ?pick xs = y # ys"
    using i y by (subst completion_order.simps) (auto simp: Let_def)
  then show ?case by blast
qed

section \<open>Unfolding the model on concrete inputs\<close>

lemmas example_defs =
  hosting_def found_a_def moved_b_def repo_a_def repo_b_def repo_c_def simple_tools_def quiet_def
  new_Workspace_def new_connection_def checkout_a_def checkout_b_def one_page_def

lemmas model_defs =
  init_def initValidate_def determineGitHubRepos_def expandRepoPatterns_def
  fullNameToGithubRepoReference_def at_def add_fresh_object_def getRepoInfo_def isRedirect_def
  word_char_def formatGitHubRepoFromApi_def assign_ref_def not_found_line_def
  resolve_all_def getRepoInfo_start_def getRepoInfo_resume_def task_value_def task_effect_def
  in_order_def completion_order_in_order
  openWorkspaceRepo_def prepareWorkspaceFolders_def cloneOrUpdateWorkspaceRepos_def
  cloneOrUpdateWorkspaceRepo_def configureBowerWorkspace_def installWorkspaceDependencies_def
  and_then_def on_world_def log_when_def skip_def Let_def

section \<open>String lemmas\<close>


lemma js_split_no_sep: "c \<notin> set s \<Longrightarrow> js_split c s = [s]"
  by (induction s) auto

lemma js_split_at_sep:
  "c \<notin> set a \<Longrightarrow> js_split c (a @ c # b) = a # js_split c b"
  by (induction a) auto


section \<open>Parsing a pattern\<close>

text \<open>
  C9. For segments \<open>own\<close> and \<open>nm\<close> free of \<open>/\<close> and \<open>#\<close>, the string
  \<open>own/nm\<close> parses to the reference with these segments, full name
  \<open>own/nm\<close> and no ref; the string \<open>own/nm#r\<close> (with \<open>r\<close> free of \<open>#\<close>)
  parses to the same reference with ref \<open>r\<close>, an empty \<open>r\<close> counting as no ref.
\<close>

theorem fullNameToGithubRepoReference_valid:
  assumes "CHR ''/'' \<notin> set own" "CHR ''#'' \<notin> set own"
      and "CHR ''/'' \<notin> set nm" "CHR ''#'' \<notin> set nm"
      and "CHR ''#'' \<notin> set r"
  shows "fullNameToGithubRepoReference (own @ ''/'' @ nm) =
           Inr \<lparr>owner = own, name = nm, fullName = own @ ''/'' @ nm,
                GitHubRepoReference.ref = None\<rparr>
       \<and> fullNameToGithubRepoReference (own @ ''/'' @ nm @ ''#'' @ r) =
           Inr \<lparr>owner = own, name = nm, fullName = own @ ''/'' @ nm,
                GitHubRepoReference.ref = (if r = [] then None else Some r)\<rparr>"
proof -
  define p where "p = own @ CHR ''/'' # nm"
  have h: "CHR ''#'' \<notin> set p"
    using assms by (simp add: p_def)
  have s1: "js_split CHR ''#'' p = [p]"
    using h by (rule js_split_no_sep)
  have s2: "js_split CHR ''#'' (p @ CHR ''#'' # r) = [p, r]"
    using js_split_at_sep [OF h, of r] js_split_no_sep [OF assms(5)] by simp
  have s3: "js_split CHR ''/'' p = [own, nm]"
    using js_split_at_sep [OF assms(1), of nm] js_split_no_sep [OF assms(3)]
    by (simp add: p_def)
  have a: "fullNameToGithubRepoReference p =
           Inr \<lparr>owner = own, name = nm, fullName = p, GitHubRepoReference.ref = None\<rparr>"
    by (simp add: fullNameToGithubRepoReference_def s1 s3 at_def)
  have b: "fullNameToGithubRepoReference (p @ CHR ''#'' # r) =
           Inr \<lparr>owner = own, name = nm, fullName = p,
                GitHubRepoReference.ref = (if r = [] then None else Some r)\<rparr>"
    by (simp add: fullNameToGithubRepoReference_def s2 s3 at_def)
  show ?thesis using a b by (simp add: p_def)
qed

text \<open>
  C9, at the pattern of the repository's example script and at its ref-free form.
\<close>

theorem fullNameToGithubRepoReference_valid_witness:
  "fullNameToGithubRepoReference ''Polymer/polymer'' =
     Inr \<lparr>owner = ''Polymer'', name = ''polymer'', fullName = ''Polymer/polymer'',
          GitHubRepoReference.ref = None\<rparr>
   \<and> fullNameToGithubRepoReference ''Polymer/polymer#2.0-preview'' =
     Inr \<lparr>owner = ''Polymer'', name = ''polymer'', fullName = ''Polymer/polymer'',
          GitHubRepoReference.ref = Some ''2.0-preview''\<rparr>"
  using fullNameToGithubRepoReference_valid
    [of "''Polymer''" "''polymer''" "''2.0-preview''"]
  by simp





section \<open>Pages of an owner listing\<close>

lemma fetch_page_org:
  "repos_getForOrg api ow pageSize page = Inr d \<Longrightarrow>
   fetch_page api ow page True pr s =
     (public_repos d, True, s\<lparr>requests := requests s @ [GetForOrg ow pageSize page]\<rparr>)"
  by (simp add: fetch_page_def)

lemma listed_Suc: "listed pages i (Suc k) = public_repos (pages i) @ listed pages (Suc i) k"
  by (simp add: listed_def upt_rec)

lemma getOwnerRepos_loop_org:
  assumes "\<forall>p. i \<le> p \<and> p \<le> i + k \<longrightarrow> repos_getForOrg api ow pageSize p = Inr (pages p)"
    and "\<forall>p. i \<le> p \<and> p < i + k \<longrightarrow> public_repos (pages p) \<noteq> []"
    and "public_repos (pages (i + k)) = []"
  shows "getOwnerRepos_loop api ow i True allr pr (s :: 'a connection_scheme) =
           Some (allr @ listed pages i k,
                 s\<lparr>requests := requests s @ map (GetForOrg ow pageSize) [i..<Suc (i + k)],
                   cache := cache_repos (listed pages i k) (cache s)\<rparr>)"
  using assms
proof (induction k arbitrary: i allr pr s)
  case 0
  then have f: "fetch_page api ow i True pr s =
     ([], True, s\<lparr>requests := requests s @ [GetForOrg ow pageSize i]\<rparr>)"
    using fetch_page_org [of api ow i "pages i" pr s] by simp
  show ?case
    by (subst getOwnerRepos_loop.simps) (simp add: f cache_all_def listed_def cache_repos_def)
next
  case (Suc k)
  have g: "repos_getForOrg api ow pageSize i = Inr (pages i)" using Suc.prems(1) by simp
  have ne: "public_repos (pages i) \<noteq> []" using Suc.prems(2) by simp
  have f: "fetch_page api ow i True pr s =
     (public_repos (pages i), True, s\<lparr>requests := requests s @ [GetForOrg ow pageSize i]\<rparr>)"
    using g by (rule fetch_page_org)
  have IH: "getOwnerRepos_loop api ow (Suc i) True allr' pr' s' =
           Some (allr' @ listed pages (Suc i) k,
                 s'\<lparr>requests := requests s' @ map (GetForOrg ow pageSize) [Suc i..<Suc (Suc i + k)],
                   cache := cache_repos (listed pages (Suc i) k) (cache s')\<rparr>)" for allr' pr' and s' :: "'a connection_scheme"
  proof (rule Suc.IH)
    show "\<forall>p. Suc i \<le> p \<and> p \<le> Suc i + k \<longrightarrow> repos_getForOrg api ow pageSize p = Inr (pages p)"
      using Suc.prems(1) by simp
    show "\<forall>p. Suc i \<le> p \<and> p < Suc i + k \<longrightarrow> public_repos (pages p) \<noteq> []"
      using Suc.prems(2) by simp
    show "public_repos (pages (Suc i + k)) = []"
      using Suc.prems(3) by simp
  qed
  show ?case
    apply (subst getOwnerRepos_loop.simps)
    apply (simp add: f ne IH cache_all_def listed_Suc cache_repos_def upt_rec [of i])
    done
qed


lemma listed_public: "listed pages i k = public_repos (concat (map pages [i..<i + k]))"
  by (simp add: listed_def public_repos_def map_concat filter_concat comp_def)

lemma getOwnerRepos_one_page:
  assumes "public_repos pg \<noteq> []"
  shows "getOwnerRepos (hosting known (one_page pg)) ''org'' s =
           Some (public_repos pg,
                 s\<lparr>requests := requests s @ [GetForOrg ''org'' pageSize 0, GetForOrg ''org'' pageSize 1],
                   cache := cache_repos (public_repos pg) (cache s)\<rparr>)"
proof -
  have "getOwnerRepos_loop (hosting known (one_page pg)) ''org'' 0 True [] [] s =
          Some ([] @ listed (one_page pg) 0 1,
                s\<lparr>requests := requests s @ map (GetForOrg ''org'' pageSize) [0..<Suc (0 + 1)],
                  cache := cache_repos (listed (one_page pg) 0 1) (cache s)\<rparr>)"
    using assms
    by (intro getOwnerRepos_loop_org) (auto simp: hosting_def one_page_def public_repos_def)
  then show ?thesis
    by (simp add: getOwnerRepos_def listed_def one_page_def upt_rec)
qed




section \<open>What a listing leaves unchanged\<close>



lemma fetch_page_more:
  "fetch_page api ow page isOrg pr s = (pr', isOrg', s') \<Longrightarrow> connection.more s' = connection.more s"
  by (auto simp: fetch_page_def Let_def split: if_splits sum.splits prod.splits)

lemma getOwnerRepos_loop_more:
  assumes "getOwnerRepos_loop api ow page isOrg allr pr s = Some y"
  shows "connection.more (snd y) = connection.more s"
proof (rule getOwnerRepos_loop.raw_induct
    [where P = "\<lambda>api ow page isOrg allr pr s y. connection.more (snd y) = connection.more s"])
  show "getOwnerRepos_loop api ow page isOrg allr pr s = Some y" by fact
next
  fix loop :: "github_api \<Rightarrow> string \<Rightarrow> nat \<Rightarrow> bool \<Rightarrow> GitHubRepoCached list \<Rightarrow> GitHubRepoCached list
     \<Rightarrow> 'a connection_scheme \<Rightarrow> (GitHubRepoCached list \<times> 'a connection_scheme) option"
  fix api ow page isOrg allr pr and s :: "'a connection_scheme" and y
  assume IH: "\<And>api ow page isOrg allr pr s y.
                 loop api ow page isOrg allr pr s = Some y \<Longrightarrow>
                 connection.more (snd y) = connection.more s"
    and body: "(case fetch_page api ow page isOrg pr s of
                  (pageRepos', isOrg', s1) \<Rightarrow>
                    if 0 < length pageRepos'
                    then loop api ow (page + 1) isOrg' (allr @ pageRepos') pageRepos'
                           (cache_all pageRepos' s1)
                    else Some (allr @ pageRepos', cache_all pageRepos' s1)) = Some y"
  obtain pr' isOrg' s1 where f: "fetch_page api ow page isOrg pr s = (pr', isOrg', s1)"
    by (cases "fetch_page api ow page isOrg pr s") auto
  have c1: "connection.more s1 = connection.more s" using f by (rule fetch_page_more)
  show "connection.more (snd y) = connection.more s"
  proof (cases "0 < length pr'")
    case True
    with body f have "loop api ow (page + 1) isOrg' (allr @ pr') pr' (cache_all pr' s1) = Some y"
      by simp
    from IH [OF this] c1 show ?thesis by (simp add: cache_all_def)
  next
    case False
    with body f c1 show ?thesis by (auto simp: cache_all_def)
  qed
qed




section \<open>Pattern expansion\<close>

















lemma listing_ends_example: "listing_ends (hosting [] (one_page [repo_a])) ''org''"
  by (simp add: listing_ends_def getOwnerRepos_one_page public_repos_def repo_a_def)



text \<open>
  C3. The claim is that the result holds at most one reference per full name.
  The code returns one reference per occurrence: the same pattern given twice
  yields two references with the full name \<open>a/b\<close>.
\<close>

theorem expandRepoPatterns_duplicate_fullName:
  "expandRepoPatterns api sched [''a/b'', ''a/b''] s =
     Some (Inr [\<lparr>owner = ''a'', name = ''b'', fullName = ''a/b'', GitHubRepoReference.ref = None\<rparr>,
                \<lparr>owner = ''a'', name = ''b'', fullName = ''a/b'', GitHubRepoReference.ref = None\<rparr>], s)"
  by (simp add: expandRepoPatterns_def fullNameToGithubRepoReference_def at_def add_fresh_object_def)

section \<open>Listing the repositories of an owner\<close>






text \<open>
  Outside the organization of C8: a page that holds private repositories
  only ends the listing as an empty page does.  Here the first fifty
  repositories of the organization are private and the public \<open>a\<close> is on the
  second page, which is never asked for.
\<close>

lemma getOwnerRepos_private_page:
  "getOwnerRepos (hosting [] (two_pages (replicate 50 repo_c) [repo_a])) ''org'' new_connection =
     Some ([], new_connection\<lparr>requests := [GetForOrg ''org'' 50 0]\<rparr>)"
  unfolding getOwnerRepos_def
  by (subst getOwnerRepos_loop.simps)
     (simp add: fetch_page_def hosting_def two_pages_def public_repos_def repo_c_def
        new_connection_def cache_all_def pageSize_def)

section \<open>The cache\<close>

text \<open>
  C7. When the full name of a reference is in the cache, \<open>getRepoInfo\<close>
  returns the five cached fields with the requested ref, or with the cached
  default branch when no ref (or an empty one) is requested, and leaves the
  whole state as it is: no request is sent and the cache is not written.
  On a miss that the remote answers, the entry written under the full name
  holds the five fields of the answer and nothing of the requested ref,
  which appears in the result only.  In every case the state after the
  call, and so the cache, is the same whatever ref was requested.
\<close>

theorem getRepoInfo_cache_hit:
  "(cache s (fullName r) = Some c \<longrightarrow>
      getRepoInfo api r s =
        (Inr \<lparr>owner = owner c, name = name c, fullName = fullName c,
              cloneUrl = cloneUrl c, defaultBranch = defaultBranch c,
              GitHubRepo.ref =
                (case GitHubRepoReference.ref r of
                   None \<Rightarrow> defaultBranch c
                 | Some x \<Rightarrow> if x = [] then defaultBranch c else x)\<rparr>, s))
   \<and> (cache s (fullName r) = None \<and>
       fullNameToGithubRepoReference (fullName r) = Inr parsed \<and>
       repos_get api (owner parsed) (name parsed) = Inr response \<and>
       \<not> isRedirect response \<longrightarrow>
      getRepoInfo api r s =
        (Inr \<lparr>owner = owner_login (data response), name = repo_name (data response),
              fullName = full_name (data response), cloneUrl = clone_url (data response),
              defaultBranch = default_branch (data response),
              GitHubRepo.ref =
                (case GitHubRepoReference.ref r of
                   None \<Rightarrow> default_branch (data response)
                 | Some x \<Rightarrow> if x = [] then default_branch (data response) else x)\<rparr>,
         s\<lparr>requests := requests s @ [ReposGet (owner parsed) (name parsed)],
           cache := (cache s)(fullName r \<mapsto>
             \<lparr>owner = owner_login (data response), name = repo_name (data response),
              fullName = full_name (data response), cloneUrl = clone_url (data response),
              defaultBranch = default_branch (data response)\<rparr>)\<rparr>))
   \<and> snd (getRepoInfo api (r\<lparr>GitHubRepoReference.ref := x\<rparr>) s) =
     snd (getRepoInfo api (r\<lparr>GitHubRepoReference.ref := y\<rparr>) s)"
proof (intro conjI impI)
  assume "cache s (fullName r) = Some c"
  then show "getRepoInfo api r s =
        (Inr \<lparr>owner = owner c, name = name c, fullName = fullName c,
              cloneUrl = cloneUrl c, defaultBranch = defaultBranch c,
              GitHubRepo.ref =
                (case GitHubRepoReference.ref r of
                   None \<Rightarrow> defaultBranch c
                 | Some x \<Rightarrow> if x = [] then defaultBranch c else x)\<rparr>, s)"
    by (cases "GitHubRepoReference.ref r") (simp_all add: getRepoInfo_def assign_ref_def)
next
  assume "cache s (fullName r) = None \<and>
       fullNameToGithubRepoReference (fullName r) = Inr parsed \<and>
       repos_get api (owner parsed) (name parsed) = Inr response \<and>
       \<not> isRedirect response"
  then show "getRepoInfo api r s =
        (Inr \<lparr>owner = owner_login (data response), name = repo_name (data response),
              fullName = full_name (data response), cloneUrl = clone_url (data response),
              defaultBranch = default_branch (data response),
              GitHubRepo.ref =
                (case GitHubRepoReference.ref r of
                   None \<Rightarrow> default_branch (data response)
                 | Some x \<Rightarrow> if x = [] then default_branch (data response) else x)\<rparr>,
         s\<lparr>requests := requests s @ [ReposGet (owner parsed) (name parsed)],
           cache := (cache s)(fullName r \<mapsto>
             \<lparr>owner = owner_login (data response), name = repo_name (data response),
              fullName = full_name (data response), cloneUrl = clone_url (data response),
              defaultBranch = default_branch (data response)\<rparr>)\<rparr>)"
    by (cases "GitHubRepoReference.ref r")
       (simp_all add: getRepoInfo_def assign_ref_def formatGitHubRepoFromApi_def Let_def)
next
  show "snd (getRepoInfo api (r\<lparr>GitHubRepoReference.ref := x\<rparr>) s) =
     snd (getRepoInfo api (r\<lparr>GitHubRepoReference.ref := y\<rparr>) s)"
    by (auto simp: getRepoInfo_def Let_def split: option.splits sum.splits)
qed

text \<open>
  C7 on \<open>org/a\<close> resolved twice, the second time from the state the first
  call left: the first call sends the request and fills the cache, the
  second returns the cached fields with the ref it was asked for and sends
  nothing; and on a cached \<open>org/a\<close> resolved without a ref.
\<close>

theorem getRepoInfo_cache_hit_witness:
  "getRepoInfo (hosting [found_a] (one_page []))
     \<lparr>owner = ''org'', name = ''a'', fullName = ''org/a'', GitHubRepoReference.ref = Some ''dev''\<rparr>
     new_connection =
   (Inr \<lparr>owner = ''org'', name = ''a'', fullName = ''org/a'',
         cloneUrl = ''https://github.com/org/a.git'', defaultBranch = ''master'',
         GitHubRepo.ref = ''dev''\<rparr>,
    \<lparr>cache = [''org/a'' \<mapsto>
                \<lparr>owner = ''org'', name = ''a'', fullName = ''org/a'',
                 cloneUrl = ''https://github.com/org/a.git'', defaultBranch = ''master''\<rparr>],
     requests = [ReposGet ''org'' ''a''], console = []\<rparr>)
   \<and> getRepoInfo (hosting [found_a] (one_page []))
     \<lparr>owner = ''org'', name = ''a'', fullName = ''org/a'', GitHubRepoReference.ref = Some ''v2''\<rparr>
     \<lparr>cache = [''org/a'' \<mapsto>
                \<lparr>owner = ''org'', name = ''a'', fullName = ''org/a'',
                 cloneUrl = ''https://github.com/org/a.git'', defaultBranch = ''master''\<rparr>],
      requests = [ReposGet ''org'' ''a''], console = []\<rparr> =
   (Inr \<lparr>owner = ''org'', name = ''a'', fullName = ''org/a'',
         cloneUrl = ''https://github.com/org/a.git'', defaultBranch = ''master'',
         GitHubRepo.ref = ''v2''\<rparr>,
    \<lparr>cache = [''org/a'' \<mapsto>
                \<lparr>owner = ''org'', name = ''a'', fullName = ''org/a'',
                 cloneUrl = ''https://github.com/org/a.git'', defaultBranch = ''master''\<rparr>],
     requests = [ReposGet ''org'' ''a''], console = []\<rparr>)
   \<and> getRepoInfo offline_api
     \<lparr>owner = ''org'', name = ''a'', fullName = ''org/a'', GitHubRepoReference.ref = None\<rparr>
     \<lparr>cache = [''org/a'' \<mapsto>
                \<lparr>owner = ''org'', name = ''a'', fullName = ''org/a'',
                 cloneUrl = ''https://github.com/org/a.git'', defaultBranch = ''master''\<rparr>],
      requests = [], console = []\<rparr> =
   (Inr \<lparr>owner = ''org'', name = ''a'', fullName = ''org/a'',
         cloneUrl = ''https://github.com/org/a.git'', defaultBranch = ''master'',
         GitHubRepo.ref = ''master''\<rparr>,
    \<lparr>cache = [''org/a'' \<mapsto>
                \<lparr>owner = ''org'', name = ''a'', fullName = ''org/a'',
                 cloneUrl = ''https://github.com/org/a.git'', defaultBranch = ''master''\<rparr>],
     requests = [], console = []\<rparr>)"
proof -
  let ?cached = "\<lparr>owner = ''org'', name = ''a'', fullName = ''org/a'',
                   cloneUrl = ''https://github.com/org/a.git'', defaultBranch = ''master''\<rparr>"
  let ?ref = "\<lambda>x. \<lparr>owner = ''org'', name = ''a'', fullName = ''org/a'',
                    GitHubRepoReference.ref = x\<rparr>"
  have p: "fullNameToGithubRepoReference ''org/a'' = Inr (?ref None)"
    by (simp add: fullNameToGithubRepoReference_def at_def)
  have g: "repos_get (hosting [found_a] (one_page [])) ''org'' ''a'' = Inr found_a"
    by (simp add: hosting_def found_a_def repo_a_def)
  have n: "\<not> isRedirect found_a"
    by (simp add: isRedirect_def found_a_def)
  note miss = getRepoInfo_cache_hit
    [of new_connection "?ref (Some ''dev'')" _ "hosting [found_a] (one_page [])"
        "?ref None" found_a]
  note hit = getRepoInfo_cache_hit
    [of "\<lparr>cache = [''org/a'' \<mapsto> ?cached], requests = [ReposGet ''org'' ''a''], console = []\<rparr>"
        "?ref (Some ''v2'')" ?cached "hosting [found_a] (one_page [])"]
  note hit0 = getRepoInfo_cache_hit
    [of "\<lparr>cache = [''org/a'' \<mapsto> ?cached], requests = [], console = []\<rparr>"
        "?ref None" ?cached offline_api]
  show ?thesis
    using miss hit hit0 p g n
    by (simp add: new_connection_def found_a_def repo_a_def)
qed

section \<open>What the connection leaves unchanged\<close>

lemma more_initializedRepos:
  "connection.more s' = connection.more s \<Longrightarrow> initializedRepos s' = initializedRepos (s :: 'w Workspace)"
  by (cases s, cases s') simp

lemma getRepoInfo_more: "connection.more (snd (getRepoInfo api r s)) = connection.more s"
  by (auto simp: getRepoInfo_def Let_def split: option.splits sum.splits)

lemma getRepoInfo_start_more:
  "connection.more (snd (getRepoInfo_start r s)) = connection.more s"
  by (auto simp: getRepoInfo_start_def split: option.splits sum.splits)

lemma getRepoInfo_resume_more:
  "connection.more (snd (getRepoInfo_resume api r p s)) = connection.more s"
  by (auto simp: getRepoInfo_resume_def Let_def split: sum.splits)

lemma scan_patterns_more:
  "connection.more (snd (scan_patterns pats acc owners s)) = connection.more s"
  by (induction pats arbitrary: acc owners s) (auto split: sum.splits)

lemma snd_start_all_Cons:
  "snd (start_all (r # rs) s) = snd (start_all rs (snd (getRepoInfo_start r s)))"
  by (simp split: prod.splits)

lemma fst_start_all_Cons:
  "fst (start_all (r # rs) s) =
     (r, fst (getRepoInfo_start r s)) # fst (start_all rs (snd (getRepoInfo_start r s)))"
  by (simp split: prod.splits)

lemma start_all_more: "connection.more (snd (start_all refs s)) = connection.more s"
  by (induction refs arbitrary: s)
     (simp_all add: snd_start_all_Cons getRepoInfo_start_more del: start_all.simps(2))

lemma task_effect_more: "connection.more (task_effect api task s) = connection.more s"
  by (auto simp: task_effect_def getRepoInfo_resume_more split: prod.splits started.splits)

lemma fold_task_effect_more:
  "connection.more (fold (task_effect api) tasks s) = connection.more s"
  by (induction tasks arbitrary: s) (simp_all add: task_effect_more)

lemma snd_resolve_all:
  "snd (resolve_all api sched refs s) =
     fold (task_effect api) (completion_order (answers_done sched) (fst (start_all refs s)))
       (snd (start_all refs s))"
  by (simp add: resolve_all_def split: prod.splits)

lemma fst_resolve_all:
  "fst (resolve_all api sched refs s) =
     map (task_value api (snd (start_all refs s))) (fst (start_all refs s))"
  by (simp add: resolve_all_def split: prod.splits)

lemma resolve_all_more:
  "connection.more (snd (resolve_all api sched refs s)) = connection.more s"
  by (simp add: snd_resolve_all fold_task_effect_more start_all_more)

lemma fst_report_and_filter_Inr:
  "fst (report_and_filter (Inr repo # rest) s) = repo # fst (report_and_filter rest s)"
  by (simp split: prod.splits)

lemma snd_report_and_filter_Inr:
  "snd (report_and_filter (Inr repo # rest) s) = snd (report_and_filter rest s)"
  by (simp split: prod.splits)

lemma report_and_filter_more: "connection.more (snd (report_and_filter ms s)) = connection.more s"
  by (induction ms s rule: report_and_filter.induct) (auto split: prod.splits)

lemma lookup_owners_more:
  "lookup_owners api owners acc s = Some (refs, s') \<Longrightarrow> connection.more s' = connection.more s"
proof (induction owners arbitrary: acc s)
  case Nil
  then show ?case by simp
next
  case (Cons p ps)
  let ?ow = "toLowerCase (substring p 0 (indexOf CHR ''/'' p))"
  from Cons.prems obtain repos s1 where g: "getOwnerRepos api ?ow s = Some (repos, s1)"
    by (auto simp: Let_def split: option.splits)
  have c: "connection.more s1 = connection.more s"
    using getOwnerRepos_loop_more [of api ?ow 0 True "[]" "[]" s "(repos, s1)"] g
    by (simp add: getOwnerRepos_def)
  from Cons.prems g obtain acc' s2 where
    r: "lookup_owners api ps acc' s2 = Some (refs, s')"
    and s2: "connection.more s2 = connection.more s"
    using c by (auto simp: Let_def)
  from Cons.IH [OF r] s2 show ?case by simp
qed

lemma expandRepoPatterns_more:
  assumes "expandRepoPatterns api sched pats s = Some (r, s')"
  shows "connection.more s' = connection.more s"
proof -
  obtain x s1 where sc: "scan_patterns pats [] [] s = (x, s1)"
    by (cases "scan_patterns pats [] [] s")
  have m1: "connection.more s1 = connection.more s"
    using scan_patterns_more [of pats "[]" "[]" s] sc by simp
  show ?thesis
  proof (cases x)
    case (Inl e)
    with assms sc m1 show ?thesis by (auto simp: expandRepoPatterns_def)
  next
    case (Inr p)
    obtain acc owners where p: "p = (acc, owners)" by (cases p)
    show ?thesis
    proof (cases "owners = []")
      case True
      with assms sc m1 Inr p show ?thesis by (auto simp: expandRepoPatterns_def)
    next
      case False
      with assms sc Inr p obtain refs where
        "lookup_owners api (completion_order (lookups_done sched) owners) acc s1 = Some (refs, s')"
        by (auto simp: expandRepoPatterns_def split: option.splits)
      from lookup_owners_more [OF this] m1 show ?thesis by simp
    qed
  qed
qed

lemma determineGitHubRepos_more:
  assumes "determineGitHubRepos api sched pats ex s = Some (r, s')"
  shows "connection.more s' = connection.more s"
proof (cases "map_throwing (\<lambda>element. toLowerCase_call None)
                (case ex of None \<Rightarrow> [] | Some given \<Rightarrow> given)")
  case (Inl e)
  with assms show ?thesis by (simp add: determineGitHubRepos_def)
next
  case (Inr excludes)
  from assms Inr obtain x s1 where e: "expandRepoPatterns api sched pats s = Some (x, s1)"
    by (auto simp: determineGitHubRepos_def split: option.splits)
  have m1: "connection.more s1 = connection.more s"
    using e by (rule expandRepoPatterns_more)
  show ?thesis
  proof (cases x)
    case (Inl e')
    with assms Inr e m1 show ?thesis by (simp add: determineGitHubRepos_def)
  next
    case (Inr expanded)
    let ?refs = "filter (\<lambda>repoRef. toLowerCase (fullName repoRef) \<notin> set excludes) expanded"
    have "s' = snd (report_and_filter (fst (resolve_all api sched ?refs s1)) (snd (resolve_all api sched ?refs s1)))"
      using assms \<open>map_throwing _ _ = Inr excludes\<close> e Inr
      by (auto simp: determineGitHubRepos_def Let_def split: prod.splits)
    then show ?thesis
      by (simp add: report_and_filter_more resolve_all_more m1)
  qed
qed

section \<open>Resolving the targets\<close>

text \<open>
  The two halves make up \<open>getRepoInfo\<close>, and what the second half returns
  does not depend on the state in which the answer is handled.
\<close>

lemma getRepoInfo_start_resume:
  "getRepoInfo api r s =
     (case getRepoInfo_start r s of
        (Settled x, s1) \<Rightarrow> (x, s1)
      | (Awaiting parsed, s1) \<Rightarrow> getRepoInfo_resume api r parsed s1)"
  by (simp add: getRepoInfo_def getRepoInfo_start_def getRepoInfo_resume_def Let_def
      split: option.splits sum.splits)

lemma getRepoInfo_resume_value:
  "fst (getRepoInfo_resume api r parsed s) = fst (getRepoInfo_resume api r parsed s')"
  by (simp add: getRepoInfo_resume_def Let_def split: sum.splits)

text \<open>
  Two references to the same repository, neither cached: each task reads
  the cache before any answer has arrived, so two requests are sent,
  whatever the order in which the answers arrive.
\<close>

lemma resolve_all_repeated_reference:
  "resolve_all (hosting [found_a] (one_page [])) sched
     [\<lparr>owner = ''org'', name = ''a'', fullName = ''org/a'', GitHubRepoReference.ref = None\<rparr>,
      \<lparr>owner = ''org'', name = ''a'', fullName = ''org/a'', GitHubRepoReference.ref = Some ''dev''\<rparr>]
     new_connection =
   ([Inr \<lparr>owner = ''org'', name = ''a'', fullName = ''org/a'',
          cloneUrl = ''https://github.com/org/a.git'', defaultBranch = ''master'',
          GitHubRepo.ref = ''master''\<rparr>,
     Inr \<lparr>owner = ''org'', name = ''a'', fullName = ''org/a'',
          cloneUrl = ''https://github.com/org/a.git'', defaultBranch = ''master'',
          GitHubRepo.ref = ''dev''\<rparr>],
    \<lparr>cache = [''org/a'' \<mapsto>
                \<lparr>owner = ''org'', name = ''a'', fullName = ''org/a'',
                 cloneUrl = ''https://github.com/org/a.git'', defaultBranch = ''master''\<rparr>],
     requests = [ReposGet ''org'' ''a'', ReposGet ''org'' ''a''], console = []\<rparr>)"
proof -
  let ?t1 = "(\<lparr>owner = ''org'', name = ''a'', fullName = ''org/a'', GitHubRepoReference.ref = None\<rparr>,
              Awaiting \<lparr>owner = ''org'', name = ''a'', fullName = ''org/a'',
                         GitHubRepoReference.ref = None\<rparr>)"
  let ?t2 = "(\<lparr>owner = ''org'', name = ''a'', fullName = ''org/a'',
                GitHubRepoReference.ref = Some ''dev''\<rparr>,
              Awaiting \<lparr>owner = ''org'', name = ''a'', fullName = ''org/a'',
                         GitHubRepoReference.ref = None\<rparr>)"
  from completion_order_two [of "answers_done sched" ?t1 ?t2] show ?thesis
  proof
    assume "completion_order (answers_done sched) [?t1, ?t2] = [?t1, ?t2]"
    then show ?thesis
      by (simp add: resolve_all_def getRepoInfo_start_def getRepoInfo_resume_def task_value_def
          task_effect_def fullNameToGithubRepoReference_def at_def hosting_def found_a_def
          repo_a_def new_connection_def isRedirect_def formatGitHubRepoFromApi_def assign_ref_def
          Let_def)
  next
    assume "completion_order (answers_done sched) [?t1, ?t2] = [?t2, ?t1]"
    then show ?thesis
      by (simp add: resolve_all_def getRepoInfo_start_def getRepoInfo_resume_def task_value_def
          task_effect_def fullNameToGithubRepoReference_def at_def hosting_def found_a_def
          repo_a_def new_connection_def isRedirect_def formatGitHubRepoFromApi_def assign_ref_def
          Let_def)
  qed
qed

lemma getRepoInfo_start_cache: "cache (snd (getRepoInfo_start r s)) = cache s"
  by (auto simp: getRepoInfo_start_def split: option.splits sum.splits)

lemma start_all_cache: "cache (snd (start_all refs s)) = cache s"
  by (induction refs arbitrary: s)
     (simp_all add: snd_start_all_Cons getRepoInfo_start_cache del: start_all.simps(2))

lemma task_value_alone:
  "task_value api t (r, fst (getRepoInfo_start r s)) = outcome_of api (cache s) r"
  by (simp add: task_value_def outcome_of_def resolve_alone_def getRepoInfo_def
      getRepoInfo_start_def getRepoInfo_resume_def Let_def split: option.splits sum.splits)

lemma start_all_outcomes:
  "map (task_value api t) (fst (start_all refs s)) = map (outcome_of api (cache s)) refs"
proof (induction refs arbitrary: s)
  case Nil
  then show ?case by simp
next
  case (Cons r rs)
  from Cons.IH [of "snd (getRepoInfo_start r s)"] show ?case
    by (simp only: fst_start_all_Cons list.map task_value_alone getRepoInfo_start_cache)
qed

lemma resolve_all_outcomes:
  "fst (resolve_all api sched refs s) = map (outcome_of api (cache s)) refs"
  by (simp only: fst_resolve_all start_all_outcomes)

lemma getRepoInfo_start_console: "console (snd (getRepoInfo_start r s)) = console s"
  by (auto simp: getRepoInfo_start_def split: option.splits sum.splits)

lemma start_all_console: "console (snd (start_all refs s)) = console s"
  by (induction refs arbitrary: s)
     (simp_all add: snd_start_all_Cons getRepoInfo_start_console del: start_all.simps(2))

lemma task_effect_console: "\<exists>l. console (task_effect api task s) = console s @ l"
  by (auto simp: task_effect_def getRepoInfo_resume_def Let_def
      split: prod.splits started.splits sum.splits)

lemma fold_task_effect_console:
  "\<exists>l. console (fold (task_effect api) tasks s) = console s @ l"
proof (induction tasks arbitrary: s)
  case Nil
  then show ?case by simp
next
  case (Cons t ts)
  from task_effect_console [of api t s] obtain l1 where
    l1: "console (task_effect api t s) = console s @ l1"
    by auto
  from Cons.IH [of "task_effect api t s"] obtain l2 where
    "console (fold (task_effect api) ts (task_effect api t s)) = console (task_effect api t s) @ l2"
    by auto
  with l1 show ?case by simp
qed

lemma resolve_all_console:
  "\<exists>l. console (snd (resolve_all api sched refs s)) = console s @ l"
  using fold_task_effect_console
    [of api "completion_order (answers_done sched) (fst (start_all refs s))" "snd (start_all refs s)"]
  by (simp add: snd_resolve_all start_all_console)

lemma report_and_filter_result:
  "fst (report_and_filter (map (outcome_of api c) refs) s) = resolved api c refs"
proof (induction refs arbitrary: s)
  case Nil
  then show ?case by (simp add: resolved_def)
next
  case (Cons r rs)
  show ?case
  proof (cases "resolve_alone api c r")
    case (Inl e)
    then show ?thesis using Cons.IH by (simp add: resolved_def outcome_of_def)
  next
    case (Inr repo)
    then have "outcome_of api c r = Inr repo" by (simp add: outcome_of_def)
    then show ?thesis using Cons.IH [of s] Inr
      by (simp add: fst_report_and_filter_Inr resolved_def del: report_and_filter.simps)
  qed
qed

lemma report_and_filter_console:
  "console (snd (report_and_filter (map (outcome_of api c) refs) s)) =
     console s @ map not_found_line (failures api c refs)"
proof (induction refs arbitrary: s)
  case Nil
  then show ?case by (simp add: failures_def)
next
  case (Cons r rs)
  show ?case
  proof (cases "resolve_alone api c r")
    case (Inl e)
    then show ?thesis using Cons.IH by (simp add: failures_def outcome_of_def)
  next
    case (Inr repo)
    then have "outcome_of api c r = Inr repo" by (simp add: outcome_of_def)
    then show ?thesis using Cons.IH [of s] Inr
      by (simp add: snd_report_and_filter_Inr failures_def del: report_and_filter.simps)
  qed
qed

text \<open>
  With no exclude list (absent or empty), when the patterns expand to the
  references \<open>refs\<close>, target determination returns; its result is the list
  of the repositories of exactly those references that resolve on their own,
  in the order of \<open>refs\<close>, whatever the order in which the answers arrive;
  and it ends by writing one report line for each reference that fails on
  its own.  So without an exclude list a reference that fails is reported
  and left out, and does not change what the other references resolve to.
\<close>

lemma determineGitHubRepos_no_excludes:
  assumes "excludes = None \<or> excludes = Some []"
    and "expandRepoPatterns api sched repoPatterns s = Some (Inr refs, s1)"
  shows "\<exists>s2 l. determineGitHubRepos api sched repoPatterns excludes s =
                   Some (Inr (resolved api (cache s1) refs), s2)
               \<and> console s2 = console s1 @ l @ map not_found_line (failures api (cache s1) refs)"
proof -
  obtain ms s2 where r: "resolve_all api sched refs s1 = (ms, s2)"
    by (cases "resolve_all api sched refs s1")
  have ms: "ms = map (outcome_of api (cache s1)) refs"
    using resolve_all_outcomes [of api sched refs s1] r by simp
  from resolve_all_console [of api sched refs s1] r obtain l where l: "console s2 = console s1 @ l"
    by auto
  obtain repos s3 where f: "report_and_filter ms s2 = (repos, s3)"
    by (cases "report_and_filter ms s2")
  have repos: "repos = resolved api (cache s1) refs"
    using report_and_filter_result [of api "cache s1" refs s2] f ms by simp
  have c3: "console s3 = console s2 @ map not_found_line (failures api (cache s1) refs)"
    using report_and_filter_console [of api "cache s1" refs s2] f ms by simp
  have "determineGitHubRepos api sched repoPatterns excludes s = Some (Inr repos, s3)"
    using assms r f by (auto simp: determineGitHubRepos_def)
  with repos c3 l show ?thesis by simp
qed

text \<open>
  Three references and no exclude list, the answers arriving in the order
  of the requests: \<open>org/x\<close> is not found, \<open>org/b\<close> has moved, \<open>org/a\<close>
  resolves.
\<close>

lemma determineGitHubRepos_no_excludes_example:
  "determineGitHubRepos (hosting [found_a, moved_b] (one_page [])) in_order
     [''org/x'', ''org/b'', ''org/a''] None new_connection =
   Some (Inr [\<lparr>owner = ''org'', name = ''a'', fullName = ''org/a'',
               cloneUrl = ''https://github.com/org/a.git'', defaultBranch = ''master'',
               GitHubRepo.ref = ''master''\<rparr>],
         \<lparr>cache = [''org/a'' \<mapsto>
                     \<lparr>owner = ''org'', name = ''a'', fullName = ''org/a'',
                      cloneUrl = ''https://github.com/org/a.git'', defaultBranch = ''master''\<rparr>],
          requests = [ReposGet ''org'' ''x'', ReposGet ''org'' ''b'', ReposGet ''org'' ''a''],
          console = [Log ''Repo ${owner}/${repo} has moved permanently.'', LogResponse moved_b,
                     Log ''Repo not found: org/x (Not Found)'',
                     Log ''Repo not found: org/b (Repo org/b could not be loaded.)'']\<rparr>)"
  by (simp add: model_defs example_defs)

text \<open>
  C5. The claim is that whenever a reference \<open>X\<close> fails on its own and a
  reference \<open>Y\<close> resolves, the target-resolution step of \<open>init\<close> reports
  \<open>X\<close> and returns a list with \<open>Y\<close>.  Here \<open>org/x\<close> is not found and
  \<open>org/a\<close> resolves, each on its own; the step is entered with these two
  and the exclude list \<open>org/zzz\<close>, which names neither.  The code throws a
  \<open>TypeError\<close> while it lower-cases the exclude list: no reference is
  attempted (no request is sent), nothing is reported, and no list is
  returned.
\<close>

theorem determineGitHubRepos_partial_failure_throws:
  "getRepoInfo (hosting [found_a] (one_page []))
     \<lparr>owner = ''org'', name = ''x'', fullName = ''org/x'', GitHubRepoReference.ref = None\<rparr>
     new_connection =
     (Inl (Error ''Not Found''), new_connection\<lparr>requests := [ReposGet ''org'' ''x'']\<rparr>)
   \<and> fst (getRepoInfo (hosting [found_a] (one_page []))
       \<lparr>owner = ''org'', name = ''a'', fullName = ''org/a'', GitHubRepoReference.ref = None\<rparr>
       new_connection) =
     Inr \<lparr>owner = ''org'', name = ''a'', fullName = ''org/a'',
          cloneUrl = ''https://github.com/org/a.git'', defaultBranch = ''master'',
          GitHubRepo.ref = ''master''\<rparr>
   \<and> determineGitHubRepos (hosting [found_a] (one_page [])) sched
       [''org/x'', ''org/a''] (Some [''org/zzz'']) new_connection =
     Some (Inl (TypeError ''String.prototype.toLowerCase called on null or undefined''),
           new_connection)"
  by (simp add: determineGitHubRepos_def getRepoInfo_def fullNameToGithubRepoReference_def at_def
      hosting_def found_a_def repo_a_def new_connection_def isRedirect_def
      formatGitHubRepoFromApi_def assign_ref_def Let_def)

text \<open>
  C2. The claim is that excluding \<open>org/a\<close> from \<open>org/a\<close> and \<open>org/b\<close>
  yields \<open>org/b\<close>.  The code throws a \<open>TypeError\<close> while it lower-cases the
  exclude list, before it looks at the patterns, and yields no list.
\<close>

theorem determineGitHubRepos_exclude_throws:
  "determineGitHubRepos api sched [''org/a'', ''org/b''] (Some [''org/a'']) s =
     Some (Inl (TypeError ''String.prototype.toLowerCase called on null or undefined''), s)"
  by (simp add: determineGitHubRepos_def)

section \<open>Initialization\<close>

lemma keeps_on_world: "keeps (on_world m)"
  by (simp add: keeps_def on_world_def split: prod.splits)

lemma keeps_for_each: "(\<And>x. keeps (body x)) \<Longrightarrow> keeps (for_each body xs)"
proof (induction xs)
  case Nil
  then show ?case by (simp add: keeps_def)
next
  case (Cons x xs)
  have a: "initializedRepos (snd (body x s)) = initializedRepos s" for s
    using Cons.prems [of x] by (simp add: keeps_def)
  have b: "initializedRepos (snd (for_each body xs s)) = initializedRepos s" for s
    using Cons.IH [OF Cons.prems] by (simp add: keeps_def)
  show ?case
    unfolding keeps_def
  proof
    fix s
    obtain r s1 where e: "body x s = (r, s1)" by (cases "body x s")
    with a [of s] have "initializedRepos s1 = initializedRepos s" by simp
    with e b [of s1] show "initializedRepos (snd (for_each body (x # xs) s)) = initializedRepos s"
      by (cases r) simp_all
  qed
qed

lemma keeps_and_then: "keeps m \<Longrightarrow> (\<And>x. keeps (f x)) \<Longrightarrow> keeps (and_then m f)"
  unfolding keeps_def and_then_def
  by (auto split: prod.splits sum.splits) (metis snd_conv)+

lemma keeps_prepareWorkspaceFolders: "keeps (prepareWorkspaceFolders tools repos options)"
  unfolding prepareWorkspaceFolders_def
  apply (rule keeps_and_then)
   apply (simp add: keeps_def and_then_def on_world_def log_when_def skip_def split: prod.splits sum.splits)
  apply (rule keeps_and_then)
   apply (simp add: keeps_def and_then_def on_world_def log_when_def skip_def split: prod.splits sum.splits)
  apply (rule keeps_for_each)
  apply (simp add: keeps_def and_then_def on_world_def log_when_def skip_def split: prod.splits sum.splits)
  done

lemma keeps_cloneOrUpdateWorkspaceRepos: "keeps (cloneOrUpdateWorkspaceRepos tools sched repos)"
  by (simp add: cloneOrUpdateWorkspaceRepos_def keeps_on_world)

lemma keeps_configureBowerWorkspace: "keeps (configureBowerWorkspace tools repos)"
  by (simp add: keeps_def configureBowerWorkspace_def on_world_def split: prod.splits)

lemma keeps_installWorkspaceDependencies: "keeps (installWorkspaceDependencies tools)"
  by (simp add: keeps_def installWorkspaceDependencies_def on_world_def split: prod.splits)

lemma pipeline_cases:
  assumes "keeps m1" "keeps m2" "keeps m3" "keeps m4"
    and "and_then m1 (\<lambda>u. and_then m2 (\<lambda>u. and_then m3 (\<lambda>u. and_then m4
           (\<lambda>u s'. (Inr wr, s'\<lparr>initializedRepos := Some wr\<rparr>))))) s = (r, s')"
  shows "(\<exists>e. r = Inl e \<and> initializedRepos s' = initializedRepos s) \<or>
         (r = Inr wr \<and> initializedRepos s' = Some wr)"
proof -
  obtain r1 s1 where 1: "m1 s = (r1, s1)" by (cases "m1 s")
  obtain r2 s2 where 2: "m2 s1 = (r2, s2)" by (cases "m2 s1")
  obtain r3 s3 where 3: "m3 s2 = (r3, s3)" by (cases "m3 s2")
  obtain r4 s4 where 4: "m4 s3 = (r4, s4)" by (cases "m4 s3")
  have k1: "initializedRepos s1 = initializedRepos s" using assms(1) 1 by (auto simp: keeps_def dest: spec [of _ s])
  have k2: "initializedRepos s2 = initializedRepos s1" using assms(2) 2 by (auto simp: keeps_def dest: spec [of _ s1])
  have k3: "initializedRepos s3 = initializedRepos s2" using assms(3) 3 by (auto simp: keeps_def dest: spec [of _ s2])
  have k4: "initializedRepos s4 = initializedRepos s3" using assms(4) 4 by (auto simp: keeps_def dest: spec [of _ s3])
  show ?thesis
    using assms(5) 1 2 3 4 k1 k2 k3 k4
    by (cases r1; cases r2; cases r3; cases r4) (auto simp: and_then_def)
qed

lemma initValidate_state: "snd (initValidate tools s) = s"
  by (simp add: initValidate_def split: sum.splits)

lemma initValidate_ok: "initValidate tools s = (Inr u, s1) \<Longrightarrow> initializedRepos s = None"
  by (auto simp: initValidate_def split: sum.splits if_splits)

lemma init_cases:
  assumes "init api tools sched inc exc opts s = Some (r, s')"
  shows "(\<exists>e. r = Inl e \<and> initializedRepos s' = initializedRepos s) \<or>
         (\<exists>repos. r = Inr repos \<and> initializedRepos s = None \<and> initializedRepos s' = Some repos)"
proof -
  obtain v s1 where v: "initValidate tools s = (v, s1)" by (cases "initValidate tools s")
  have s1: "s1 = s" using initValidate_state [of tools s] v by simp
  show ?thesis
  proof (cases v)
    case (Inl e)
    with assms v s1 show ?thesis by (auto simp: init_def)
  next
    case (Inr u)
    have none: "initializedRepos s = None" using v Inr initValidate_ok by blast
    from assms v Inr s1 obtain d s2 where d: "determineGitHubRepos api sched inc exc s = Some (d, s2)"
      by (auto simp: init_def split: option.splits)
    have k: "initializedRepos s2 = initializedRepos s"
      using determineGitHubRepos_more [OF d] by (rule more_initializedRepos)
    show ?thesis
    proof (cases d)
      case (Inl e)
      with assms v \<open>v = Inr u\<close> s1 d k show ?thesis by (auto simp: init_def)
    next
      case (Inr githubRepos)
      let ?wr = "map (openWorkspaceRepo tools (Workspace.dir s2)) githubRepos"
      have "and_then (prepareWorkspaceFolders tools ?wr opts)
              (\<lambda>u. and_then (cloneOrUpdateWorkspaceRepos tools sched ?wr)
                 (\<lambda>u. and_then (configureBowerWorkspace tools ?wr)
                    (\<lambda>u. and_then (installWorkspaceDependencies tools)
                       (\<lambda>u s'. (Inr ?wr, s'\<lparr>initializedRepos := Some ?wr\<rparr>))))) s2 = (r, s')"
        using assms v \<open>v = Inr u\<close> s1 d Inr by (simp add: init_def Let_def)
      from pipeline_cases [OF keeps_prepareWorkspaceFolders keeps_cloneOrUpdateWorkspaceRepos
          keeps_configureBowerWorkspace keeps_installWorkspaceDependencies this] k none
      show ?thesis by auto
    qed
  qed
qed

lemma init_example:
  "init (hosting [found_a] (one_page [])) (simple_tools [''git'', ''bower''] True) in_order
     [''org/a''] None quiet (new_Workspace ''ws'' []) =
   Some (Inr [checkout_a], initialized_example)"
  by (simp add: model_defs example_defs initialized_example_def)

lemma init_example_fail:
  "init (hosting [found_a] (one_page [])) (simple_tools [''git'', ''bower''] False) in_order
     [''org/a''] None quiet (new_Workspace ''ws'' []) =
   Some (Inl (Error ''Command failed: bower''), failed_example)"
  by (simp add: model_defs example_defs failed_example_def)

text \<open>
  C4. After an \<open>init\<close> that succeeded with the repositories \<open>repos\<close>, every
  further \<open>init\<close>, whatever its arguments, fails with the already-initialized
  error and changes nothing: the state is the one the first call left, and
  its recorded repositories are still \<open>repos\<close>.
\<close>

theorem init_twice:
  assumes "init api tools sched inc exc opts s = Some (Inr repos, s1)"
  shows "init api2 tools2 sched2 inc2 exc2 opts2 s1 = Some (Inl already_initialized, s1)
       \<and> initializedRepos s1 = Some repos"
proof -
  from init_cases [OF assms] have r: "initializedRepos s1 = Some repos" by simp
  then have "initValidate tools2 s1 = (Inl already_initialized, s1)"
    by (simp add: initValidate_def)
  then show ?thesis using r by (simp add: init_def)
qed

text \<open>
  C4 on a workspace initialized with \<open>org/a\<close>.
\<close>

theorem init_twice_witness:
  "init (hosting [found_a] (one_page [])) (simple_tools [''git'', ''bower''] True) in_order
     [''org/a''] None quiet (new_Workspace ''ws'' []) =
   Some (Inr [checkout_a], initialized_example)
   \<and> init (hosting [found_a] (one_page [])) (simple_tools [''git'', ''bower''] True) in_order
     [''org/a''] None quiet initialized_example =
   Some (Inl already_initialized, initialized_example)
   \<and> initializedRepos initialized_example = Some [checkout_a]"
  using init_twice [OF init_example, of "hosting [found_a] (one_page [])"
      "simple_tools [''git'', ''bower''] True" in_order "[''org/a'']" None quiet]
    init_example
  by simp

text \<open>
  C10. On a workspace that is not initialized, an \<open>init\<close> that fails, at
  whatever step, leaves it not initialized, so that the validation of a
  later \<open>init\<close> passes as soon as both commands are found; and an \<open>init\<close>
  that succeeds records exactly the repositories it returns.
\<close>

theorem init_failure_stays_uninitialized:
  assumes "initializedRepos s = None"
    and "init api tools sched inc exc opts s = Some (r, s')"
  shows "case r of
           Inl e \<Rightarrow>
             initializedRepos s' = None \<and>
             (checkCommand tools2 ''git'' (world s') = Inr True \<and>
              checkCommand tools2 ''bower'' (world s') = Inr True \<longrightarrow>
                initValidate tools2 s' = (Inr (), s'))
         | Inr repos \<Rightarrow> initializedRepos s' = Some repos"
  using init_cases [OF assms(2)] assms(1)
  by (auto simp: initValidate_def split: sum.splits)

text \<open>
  C10 on an \<open>init\<close> that fails at its last step, the installation of the
  dependencies.
\<close>

theorem init_failure_stays_uninitialized_witness:
  "initializedRepos (new_Workspace ''ws'' [] :: string list Workspace) = None
   \<and> init (hosting [found_a] (one_page [])) (simple_tools [''git'', ''bower''] False) in_order
       [''org/a''] None quiet (new_Workspace ''ws'' []) =
     Some (Inl (Error ''Command failed: bower''), failed_example)
   \<and> initializedRepos failed_example = None
   \<and> initValidate (simple_tools [''git'', ''bower''] True) failed_example =
       (Inr (), failed_example)"
proof -
  have n: "initializedRepos (new_Workspace ''ws'' [] :: string list Workspace) = None"
    by (simp add: new_Workspace_def)
  from init_failure_stays_uninitialized [OF n init_example_fail,
      of "simple_tools [''git'', ''bower''] True"]
  show ?thesis using n init_example_fail by (simp add: simple_tools_def)
qed


section \<open>Running a function over the repositories\<close>

lemma run_loop_invocations:
  "run_loop fn repos successRuns failRuns w =
     ((successRuns @ [repo. (repo, res) \<leftarrow> invocations fn repos w, \<not> isl res],
       failRuns @ [(repo, projl res). (repo, res) \<leftarrow> invocations fn repos w, isl res]),
      fold (\<lambda>repo w. snd (fn repo w)) repos w)"
proof (induction repos arbitrary: successRuns failRuns w)
  case Nil
  then show ?case by simp
next
  case (Cons repo rest)
  obtain res w1 where f: "fn repo w = (res, w1)" by (cases "fn repo w")
  show ?case
    using Cons.IH f by (cases res) simp_all
qed

lemma map_fst_invocations: "map fst (invocations fn repos w) = repos"
  by (induction repos arbitrary: w) simp_all

text \<open>
  C6. On a workspace that is not initialized \<open>run\<close> fails with the
  not-initialized error and changes nothing.  Otherwise the function is
  called once on every initialized repository, in order, each call starting
  from the machine the previous call left; \<open>run\<close> returns the repositories
  whose call returned and, for each repository whose call threw, the
  repository with its error.
\<close>

theorem run_partitions:
  "(initializedRepos s = None \<longrightarrow> run fn s = (Inl not_initialized, s))
   \<and> (initializedRepos s = Some repos \<longrightarrow>
        run fn s =
          (Inr ([repo. (repo, res) \<leftarrow> invocations fn repos (world s), \<not> isl res],
                [(repo, projl res). (repo, res) \<leftarrow> invocations fn repos (world s), isl res]),
           s\<lparr>world := fold (\<lambda>repo w. snd (fn repo w)) repos (world s)\<rparr>)
        \<and> map fst (invocations fn repos (world s)) = repos)"
  by (simp add: run_def run_loop_invocations map_fst_invocations)

text \<open>
  C6 on repositories \<open>a\<close>, whose call returns, and \<open>b\<close>, whose call throws,
  in both orders, and on a workspace that is not initialized.
\<close>

theorem run_partitions_witness:
  "run failing_on_b (new_Workspace ''ws'' []) = (Inl not_initialized, new_Workspace ''ws'' [])
   \<and> run failing_on_b (new_Workspace ''ws'' []\<lparr>initializedRepos := Some [checkout_a, checkout_b]\<rparr>) =
       (Inr ([checkout_a], [(checkout_b, Error ''tests failed'')]),
        new_Workspace ''ws'' []\<lparr>initializedRepos := Some [checkout_a, checkout_b],
                                world := [''a'', ''b'']\<rparr>)
   \<and> run failing_on_b (new_Workspace ''ws'' []\<lparr>initializedRepos := Some [checkout_b, checkout_a]\<rparr>) =
       (Inr ([checkout_a], [(checkout_b, Error ''tests failed'')]),
        new_Workspace ''ws'' []\<lparr>initializedRepos := Some [checkout_b, checkout_a],
                                world := [''b'', ''a'']\<rparr>)"
  using run_partitions [of "new_Workspace ''ws'' []" failing_on_b "[]"]
    run_partitions [of "new_Workspace ''ws'' []\<lparr>initializedRepos := Some [checkout_a, checkout_b]\<rparr>"
      failing_on_b "[checkout_a, checkout_b]"]
    run_partitions [of "new_Workspace ''ws'' []\<lparr>initializedRepos := Some [checkout_b, checkout_a]\<rparr>"
      failing_on_b "[checkout_b, checkout_a]"]
  by (simp add: new_Workspace_def failing_on_b_def checkout_a_def checkout_b_def
      assign_ref_def formatGitHubRepoFromApi_def repo_a_def repo_b_def)

end
